(* ===== verification/Prelude.thy ===== *)
theory Prelude
  imports Main
begin

text \<open>
  Shared vocabulary of the development: the types that name time and
  identifiers, the NestJS exceptions every service raises (as values of a
  datatype, so that each \<open>throw\<close> of the source is a branch of the model), the
  decimal rendering of numbers used by template strings, and the list
  operations behind the services' \<open>Array.find\<close> and in-place mutation of the
  found element, with the lemmas the component theories share.
\<close>

named_theorems model_simps
  "equations that evaluate the model's operations on concrete states"

type_synonym timestamp = nat \<comment> \<open>a JavaScript \<open>Date\<close>: milliseconds since the epoch\<close>

type_synonym seconds = nat \<comment> \<open>a NumericDate of a JWT: seconds since the epoch\<close>

subsection \<open>NestJS exceptions\<close>

text \<open>
  \<open>NotFoundException\<close>, \<open>ConflictException\<close> and \<open>UnauthorizedException\<close> of
  \<open>@nestjs/common\<close>, with the message the source passes to the constructor.
  \<open>ValidationError\<close> is not raised by any code under \<open>src/\<close>.
\<close>

datatype http_error =
    NotFoundException string
  | ConflictException string
  | UnauthorizedException string

fun http_status :: "http_error \<Rightarrow> nat" where
  "http_status (NotFoundException _) = 404"
| "http_status (ConflictException _) = 409"
| "http_status (UnauthorizedException _) = 401"

text \<open>
  Strings are byte lists; the Spanish messages of the source hold an
  \<open>a\<close> with acute accent, written as its UTF-8 encoding.
\<close>

definition a_acute :: string where
  "a_acute = [CHR 0xC3, CHR 0xA1]"

subsection \<open>Decimal rendering of numbers\<close>

text \<open>\<open>${n}\<close> in a template literal, for the non-negative integers the model uses.\<close>

fun string_of_nat :: "nat \<Rightarrow> string" where
  "string_of_nat n =
     (if n < 10 then [char_of (48 + n)]
      else string_of_nat (n div 10) @ [char_of (48 + n mod 10)])"

declare string_of_nat.simps [simp del]

lemma string_of_nat_nonempty [simp]: "string_of_nat n \<noteq> []"
  by (subst string_of_nat.simps) simp

subsection \<open>Updating the first element that satisfies a predicate\<close>

text \<open>
  \<open>const u = xs.find(P); u.f = v\<close> mutates the one object \<open>find\<close> returned:
  the first element satisfying \<open>P\<close>, and no other.
\<close>

fun update_first :: "('a \<Rightarrow> bool) \<Rightarrow> ('a \<Rightarrow> 'a) \<Rightarrow> 'a list \<Rightarrow> 'a list" where
  "update_first P f [] = []"
| "update_first P f (x # xs) = (if P x then f x # xs else x # update_first P f xs)"

lemma length_update_first [simp]: "length (update_first P f xs) = length xs"
  by (induction xs) auto

lemma map_update_first:
  "(\<And>x. g (f x) = g x) \<Longrightarrow> map g (update_first P f xs) = map g xs"
  by (induction xs) auto

lemma update_first_no_match:
  "find P xs = None \<Longrightarrow> update_first P f xs = xs"
  by (induction xs) (auto split: if_splits)

lemma find_update_first:
  "(\<And>x. P (f x) = P x) \<Longrightarrow> find P (update_first P f xs) = map_option f (find P xs)"
  by (induction xs) auto

lemma find_update_first_other:
  assumes "\<And>x. Q (f x) = Q x" and "\<And>x. P x \<Longrightarrow> \<not> Q x"
  shows "find Q (update_first P f xs) = find Q xs"
  using assms by (induction xs) auto

lemma set_update_first:
  "y \<in> set (update_first P f xs) \<Longrightarrow> y \<in> set xs \<or> (\<exists>x \<in> set xs. P x \<and> y = f x)"
  by (induction xs) (auto split: if_splits)

lemma update_first_split:
  "find P xs = Some x \<Longrightarrow>
     \<exists>ys zs. xs = ys @ x # zs \<and> (\<forall>y \<in> set ys. \<not> P y) \<and> P x \<and>
             update_first P f xs = ys @ f x # zs"
proof (induction xs)
  case Nil
  then show ?case by simp
next
  case (Cons a xs)
  show ?case
  proof (cases "P a")
    case True
    with Cons.prems have "x = a" by simp
    with True show ?thesis by (intro exI [of _ "[]"] exI [of _ xs]) simp
  next
    case False
    with Cons obtain ys zs where "xs = ys @ x # zs" "\<forall>y \<in> set ys. \<not> P y" "P x"
        "update_first P f xs = ys @ f x # zs"
      by auto
    with False show ?thesis by (intro exI [of _ "a # ys"] exI [of _ zs]) simp
  qed
qed

subsection \<open>Array.find\<close>

lemma find_append_single [simp]:
  "find P (xs @ [x]) = (case find P xs of None \<Rightarrow> (if P x then Some x else None) | Some y \<Rightarrow> Some y)"
  by (induction xs) auto

lemma find_SomeD:
  "find P xs = Some x \<Longrightarrow> x \<in> set xs \<and> P x"
  by (induction xs) (auto split: if_splits)

lemma find_unique:
  "x \<in> set xs \<Longrightarrow> P x \<Longrightarrow> (\<And>y. y \<in> set xs \<Longrightarrow> P y \<Longrightarrow> y = x) \<Longrightarrow> find P xs = Some x"
proof (induction xs)
  case Nil
  then show ?case by simp
next
  case (Cons a xs)
  show ?case
  proof (cases "P a")
    case True
    with Cons.prems(3) have "a = x" by (meson list.set_intros(1))
    with True show ?thesis by simp
  next
    case False
    from False Cons.prems(1,2) have x: "x \<in> set xs" by auto
    have "\<And>y. y \<in> set xs \<Longrightarrow> P y \<Longrightarrow> y = x"
      using Cons.prems(3) by (meson list.set_intros(2))
    with x Cons.prems(2) have "find P xs = Some x" by (rule Cons.IH)
    with False show ?thesis by simp
  qed
qed

lemma find_prefix_miss:
  "find P (ys @ x # zs) = Some x \<Longrightarrow> x \<notin> set ys \<Longrightarrow> \<forall>y \<in> set ys. \<not> P y"
  by (induction ys) (auto split: if_splits)

lemma find_append_hit:
  "\<forall>y \<in> set ys. \<not> P y \<Longrightarrow> P x \<Longrightarrow> find P (ys @ x # zs) = Some x"
  by (induction ys) auto


subsection \<open>Arrays keyed by a field, read as maps\<close>

text \<open>
  An array of objects with a key field, read as the map from keys to the
  first element with that key (what \<open>find\<close> on the key returns).
\<close>

lemma map_of_keyed:
  "map_of (map (\<lambda>x. (k x, x)) xs) i = find (\<lambda>x. k x = i) xs"
  by (induction xs) auto

lemma map_of_snoc_fresh:
  "k \<notin> fst ` set xs \<Longrightarrow> map_of (xs @ [(k, v)]) = (map_of xs)(k \<mapsto> v)"
  by (induction xs) (auto simp: fun_eq_iff)

lemma map_of_keyed_update_first:
  assumes "\<And>x. k (f x) = k x"
  shows "map_of (map (\<lambda>x. (k x, x)) (update_first (\<lambda>x. k x = i) f xs)) =
           (case find (\<lambda>x. k x = i) xs of None \<Rightarrow> map_of (map (\<lambda>x. (k x, x)) xs)
            | Some u \<Rightarrow> (map_of (map (\<lambda>x. (k x, x)) xs))(i \<mapsto> f u))"
  using assms by (induction xs) (auto simp: fun_eq_iff update_first_no_match split: option.splits)


subsection \<open>The position of the element Array.find returns\<close>

text \<open>
  An object found in an array is a reference to one element; the arrays of
  the program only grow, so the element's index is a stable name for it.
  \<open>find_idx\<close> is the index of the element \<open>find\<close> returns.
\<close>

fun find_idx :: "('a \<Rightarrow> bool) \<Rightarrow> 'a list \<Rightarrow> nat option" where
  "find_idx P [] = None"
| "find_idx P (x # xs) = (if P x then Some 0 else map_option Suc (find_idx P xs))"

lemma find_idx_find: "find P xs = map_option (\<lambda>k. xs ! k) (find_idx P xs)"
  by (induction xs) (auto simp: option.map_comp comp_def)

lemma find_idx_less: "find_idx P xs = Some k \<Longrightarrow> k < length xs"
  by (induction xs arbitrary: k) (auto split: if_splits)

lemma find_idx_None: "find_idx P xs = None \<longleftrightarrow> find P xs = None"
  by (simp add: find_idx_find)

lemma find_idx_append_hit: "find_idx P xs = Some k \<Longrightarrow> find_idx P (xs @ ys) = Some k"
  by (induction xs arbitrary: k) (auto split: if_splits)

lemma find_idx_snoc_miss:
  "find_idx P xs = None \<Longrightarrow> find_idx P (xs @ [y]) = (if P y then Some (length xs) else None)"
  by (induction xs) auto

lemma update_first_idx:
  "update_first P f xs = (case find_idx P xs of None \<Rightarrow> xs | Some k \<Rightarrow> xs[k := f (xs ! k)])"
  by (induction xs) (auto split: option.splits)

end
