(* ===== verification/JsString.thy ===== *)
theory JsString
  imports Prelude
begin

text \<open>
  The two string methods the services apply to every e-mail address,
  \<open>String.prototype.toLowerCase\<close> and \<open>String.prototype.trim\<close>, and their
  composition \<open>email.toLowerCase().trim()\<close> (\<open>users.service.ts\<close> lines 19,
  43 and 59, \<open>auth.service.ts\<close> lines 27 and 60). Strings are byte lists:
  both methods are modelled on the ASCII range, where JavaScript maps
  \<open>A\<close>..\<open>Z\<close> to \<open>a\<close>..\<open>z\<close> and \<open>trim\<close> removes TAB, LF, VT, FF, CR and SPACE
  from both ends. The non-ASCII white space and case mappings of Unicode are
  not modelled. The lemmas show that the normalisation is idempotent and
  that it identifies every case and white-space variant of an address.
\<close>

definition js_is_space :: "char \<Rightarrow> bool" where
  "js_is_space c \<longleftrightarrow> of_char c \<in> {9, 10, 11, 12, 13, 32 :: nat}"

definition is_ascii_upper :: "char \<Rightarrow> bool" where
  "is_ascii_upper c \<longleftrightarrow> 65 \<le> (of_char c :: nat) \<and> (of_char c :: nat) \<le> 90"

definition is_ascii_lower :: "char \<Rightarrow> bool" where
  "is_ascii_lower c \<longleftrightarrow> 97 \<le> (of_char c :: nat) \<and> (of_char c :: nat) \<le> 122"

definition js_lower_char :: "char \<Rightarrow> char" where
  "js_lower_char c = (if is_ascii_upper c then char_of (of_char c + (32 :: nat)) else c)"

definition js_upper_char :: "char \<Rightarrow> char" where
  "js_upper_char c = (if is_ascii_lower c then char_of (of_char c - (32 :: nat)) else c)"

definition toLowerCase :: "string \<Rightarrow> string" where
  "toLowerCase s = map js_lower_char s"

definition toUpperCase :: "string \<Rightarrow> string" where
  "toUpperCase s = map js_upper_char s"

definition trim :: "string \<Rightarrow> string" where
  "trim s = rev (dropWhile js_is_space (rev (dropWhile js_is_space s)))"

text \<open>\<open>email.toLowerCase().trim()\<close>: lower-casing first, then trimming.\<close>

definition normalize_email :: "string \<Rightarrow> string" where
  "normalize_email s = trim (toLowerCase s)"

text \<open>
  \<open>s.length\<close>, which class-validator's \<open>MinLength\<close>/\<open>MaxLength\<close> compare:
  the number of UTF-16 code units. A string here is its UTF-8 encoding;
  each byte that is not a continuation byte (\<open>10xxxxxx\<close>) starts a code
  point, which takes one code unit, or two when it is encoded in four
  bytes (lead byte \<open>11110xxx\<close>).
\<close>

definition utf8_continuation :: "char \<Rightarrow> bool" where
  "utf8_continuation c \<longleftrightarrow> of_char c div 64 = (2::nat)"

definition utf8_lead4 :: "char \<Rightarrow> bool" where
  "utf8_lead4 c \<longleftrightarrow> of_char c div 8 = (30::nat)"

definition js_length :: "string \<Rightarrow> nat" where
  "js_length s = length (filter (\<lambda>c. \<not> utf8_continuation c) s) + length (filter utf8_lead4 s)"

text \<open>The euro sign: one code unit, three bytes.\<close>

definition euro_sign :: string where
  "euro_sign = [CHR 0xE2, CHR 0x82, CHR 0xAC]"

subsection \<open>Characters\<close>

lemma js_lower_char_space [simp]: "js_is_space (js_lower_char c) = js_is_space c"
  by (auto simp: js_lower_char_def js_is_space_def is_ascii_upper_def)

lemma js_lower_char_idem [simp]: "js_lower_char (js_lower_char c) = js_lower_char c"
  by (auto simp: js_lower_char_def is_ascii_upper_def)

lemma js_lower_upper_char [simp]: "js_lower_char (js_upper_char c) = js_lower_char c"
proof (cases "is_ascii_lower c")
  case True
  then have lo: "97 \<le> (of_char c :: nat)" and hi: "(of_char c :: nat) \<le> 122"
    by (simp_all add: is_ascii_lower_def)
  then have "(of_char c - 32 :: nat) < 256" by arith
  then have u: "(of_char (js_upper_char c) :: nat) = of_char c - 32"
    using True by (simp add: js_upper_char_def)
  have "is_ascii_upper (js_upper_char c)" unfolding is_ascii_upper_def u using lo hi by arith
  with u lo have "js_lower_char (js_upper_char c) = char_of (of_char c :: nat)"
    by (simp add: js_lower_char_def)
  moreover from lo have "js_lower_char c = c" by (simp add: js_lower_char_def is_ascii_upper_def)
  ultimately show ?thesis by simp
next
  case False
  then show ?thesis by (simp add: js_upper_char_def)
qed

lemma js_length_ascii:
  "\<forall>c \<in> set s. of_char c < (128::nat) \<Longrightarrow> js_length s = length s"
  by (induction s) (auto simp: js_length_def utf8_continuation_def utf8_lead4_def)

lemma js_length_append [simp]: "js_length (s @ t) = js_length s + js_length t"
  by (simp add: js_length_def)

lemma js_length_euros:
  "js_length (concat (replicate n euro_sign)) = n \<and> length (concat (replicate n euro_sign)) = 3 * n"
  by (induction n) (simp_all add: js_length_def euro_sign_def utf8_continuation_def utf8_lead4_def)

subsection \<open>Trimming\<close>

lemma trim_fixed:
  assumes "s = [] \<or> \<not> js_is_space (hd s) \<and> \<not> js_is_space (last s)"
  shows "trim s = s"
proof -
  from assms have "dropWhile js_is_space s = s"
    by (auto simp: dropWhile_eq_self_iff)
  moreover from assms have "dropWhile js_is_space (rev s) = rev s"
    by (auto simp: dropWhile_eq_self_iff hd_rev)
  ultimately show ?thesis by (simp add: trim_def)
qed

lemma trim_shape:
  "trim s = [] \<or> \<not> js_is_space (hd (trim s)) \<and> \<not> js_is_space (last (trim s))"
proof -
  define a where "a = dropWhile js_is_space s"
  define b where "b = dropWhile js_is_space (rev a)"
  have t: "trim s = rev b" by (simp add: trim_def a_def b_def)
  show ?thesis
  proof (cases "b = []")
    case True
    with t show ?thesis by simp
  next
    case False
    then have hb: "\<not> js_is_space (hd b)" unfolding b_def by (rule hd_dropWhile)
    from False have "hd b \<in> set b" by simp
    then have "hd b \<in> set (rev a)" unfolding b_def by (rule set_dropWhileD)
    then have "last b = last (rev a)" using hb by (metis b_def dropWhile_last)
    moreover from False have "a \<noteq> []" by (auto simp: b_def)
    then have "\<not> js_is_space (hd a)" unfolding a_def by (rule hd_dropWhile)
    ultimately have "\<not> js_is_space (last b)"
      using \<open>a \<noteq> []\<close> by (simp add: last_rev)
    with hb False t show ?thesis by (simp add: hd_rev last_rev)
  qed
qed

lemma trim_idem [simp]: "trim (trim s) = trim s"
  using trim_shape [of s] by (rule trim_fixed)

lemma trim_all_space:
  "\<forall>c \<in> set s. js_is_space c \<Longrightarrow> trim s = []"
proof -
  assume "\<forall>c \<in> set s. js_is_space c"
  then have "dropWhile js_is_space s = []" by (simp only: dropWhile_eq_Nil_conv)
  then show "trim s = []" by (simp add: trim_def del: dropWhile_eq_Nil_conv)
qed

lemma trim_pad:
  assumes l: "\<forall>c \<in> set l. js_is_space c" and r: "\<forall>c \<in> set r. js_is_space c"
  shows "trim (l @ s @ r) = trim s"
proof (cases "\<exists>c \<in> set s. \<not> js_is_space c")
  case True
  then obtain c where c: "c \<in> set s" "\<not> js_is_space c" by blast
  from l have "dropWhile js_is_space (l @ s @ r) = dropWhile js_is_space (s @ r)"
    by (simp add: dropWhile_append2)
  also from c have "\<dots> = dropWhile js_is_space s @ r" by (rule dropWhile_append1)
  finally have d: "dropWhile js_is_space (l @ s @ r) = dropWhile js_is_space s @ r" .
  from r have "dropWhile js_is_space (rev r @ rev (dropWhile js_is_space s))
      = dropWhile js_is_space (rev (dropWhile js_is_space s))"
    by (subst dropWhile_append2) auto
  with d show ?thesis by (simp add: trim_def)
next
  case False
  with l r have "\<forall>c \<in> set (l @ s @ r). js_is_space c" by auto
  then have "trim (l @ s @ r) = []" by (rule trim_all_space)
  moreover from False have "trim s = []" by (intro trim_all_space) blast
  ultimately show ?thesis by simp
qed


subsection \<open>Normalisation of e-mail addresses\<close>

lemma toLowerCase_idem [simp]: "toLowerCase (toLowerCase s) = toLowerCase s"
  by (simp add: toLowerCase_def)

lemma toLowerCase_toUpperCase [simp]: "toLowerCase (toUpperCase s) = toLowerCase s"
  by (simp add: toLowerCase_def toUpperCase_def)

lemma toLowerCase_append [simp]: "toLowerCase (s @ t) = toLowerCase s @ toLowerCase t"
  by (simp add: toLowerCase_def)

lemma toLowerCase_space:
  "\<forall>c \<in> set s. js_is_space c \<Longrightarrow> \<forall>c \<in> set (toLowerCase s). js_is_space c"
  by (simp add: toLowerCase_def)

lemma trim_toLowerCase: "trim (toLowerCase s) = toLowerCase (trim s)"
  by (simp add: trim_def toLowerCase_def dropWhile_map rev_map comp_def)

lemma normalize_email_idem [simp]: "normalize_email (normalize_email s) = normalize_email s"
  by (simp add: normalize_email_def trim_toLowerCase)

lemma normalize_email_variant:
  assumes "\<forall>c \<in> set l. js_is_space c" and "\<forall>c \<in> set r. js_is_space c"
  shows "normalize_email (l @ toUpperCase s @ r) = normalize_email s"
proof -
  have "normalize_email (l @ toUpperCase s @ r) = trim (toLowerCase l @ toLowerCase s @ toLowerCase r)"
    by (simp add: normalize_email_def)
  also have "\<dots> = trim (toLowerCase s)"
    using assms by (intro trim_pad toLowerCase_space)
  finally show ?thesis by (simp add: normalize_email_def)
qed

end
