(* ===== verification/Users.thy ===== *)
theory Users
  imports JsString
begin

text \<open>
  The user entity (\<open>src/users/entities/user.entity.ts\<close>), the DTOs of the
  users module, and the in-memory store \<open>UsersService\<close>
  (\<open>src/users/users.service.ts\<close>). The service's two private fields, the
  array \<open>users\<close> and the number \<open>idCounter\<close>, are the record
  \<open>users_state\<close>; every method is a function that takes the state and the
  current time (\<open>new Date()\<close>) and returns its result with the new state;
  a \<open>throw new NotFoundException\<close> is an \<open>Inl\<close> result that leaves the
  state unchanged. The id counter is a JavaScript number: \<open>idCounter++\<close> is
  exact below \<open>2^53\<close> and rounds back to \<open>2^53\<close> there (\<open>js_incr\<close>).
  The lemmas give the store invariant and its preservation, the lookup-after-
  insert and lookup-after-update behaviour of every method, its error
  branches, and two ways in which the store loses uniqueness.
\<close>

subsection \<open>Entity and DTOs\<close>

text \<open>
  \<open>Omit<User, 'password'>\<close>, the view every method but \<open>findByEmail\<close>
  returns, is the record \<open>safe_user\<close>; \<open>User\<close> extends it by the password
  field. \<open>isActive?: boolean\<close> is optional, so it is a \<open>bool option\<close>.
\<close>

record safe_user =
  user_id :: nat
  nombre :: string
  apellido :: string
  username :: string
  email :: string
  createdAt :: timestamp
  updatedAt :: timestamp
  isActive :: "bool option"

record user = safe_user +
  password :: string

record create_user_dto =
  dto_nombre :: string
  dto_apellido :: string
  dto_username :: string
  dto_email :: string
  dto_password :: string

text \<open>
  The class-validator decorators of \<open>CreateUserDto\<close>, lengths in UTF-16
  code units as JavaScript counts them. \<open>@IsEmail()\<close> is a library
  predicate, a parameter here. No code of the repository applies them
  (the \<open>ValidationPipe\<close> of \<open>main.ts\<close> is not in it).
\<close>

definition create_user_dto_valid :: "(string \<Rightarrow> bool) \<Rightarrow> create_user_dto \<Rightarrow> bool" where
  "create_user_dto_valid is_email d \<longleftrightarrow>
     2 \<le> js_length (dto_nombre d) \<and> js_length (dto_nombre d) \<le> 80 \<and>
     2 \<le> js_length (dto_apellido d) \<and> js_length (dto_apellido d) \<le> 80 \<and>
     3 \<le> js_length (dto_username d) \<and> js_length (dto_username d) \<le> 40 \<and>
     is_email (dto_email d) \<and> js_length (dto_email d) \<le> 150 \<and>
     6 \<le> js_length (dto_password d) \<and> js_length (dto_password d) \<le> 50"

text \<open>
  \<open>UpdateUserDto\<close> (imported from \<open>./dto/update-user.dto\<close>, which is not
  in the repository): every field of \<open>CreateUserDto\<close>, optional.
\<close>

record update_user_dto =
  upd_nombre :: "string option"
  upd_apellido :: "string option"
  upd_username :: "string option"
  upd_email :: "string option"
  upd_password :: "string option"

subsection \<open>The store\<close>

record users_state =
  users :: "user list"
  idCounter :: nat

definition users_service_init :: users_state where
  "users_service_init = \<lparr>users = [], idCounter = 1\<rparr>"

text \<open>
  \<open>idCounter++\<close> on a JavaScript number: below \<open>2^53\<close> the successor is exact;
  \<open>2^53 + 1\<close> is not a double and rounds (ties to even) to \<open>2^53\<close>.
  Counters reachable from 1 never exceed \<open>2^53\<close>.
\<close>

definition js_incr :: "nat \<Rightarrow> nat" where
  "js_incr n = (if n < 2 ^ 53 then n + 1 else n)"

definition sanitize :: "user \<Rightarrow> safe_user" where
  "sanitize u = safe_user.truncate u"

text \<open>The object literal \<open>newUser\<close> of \<open>create\<close>, for the id it receives.\<close>

definition new_user :: "timestamp \<Rightarrow> create_user_dto \<Rightarrow> nat \<Rightarrow> user" where
  "new_user now d i =
     \<lparr>user_id = i, nombre = dto_nombre d, apellido = dto_apellido d,
      username = dto_username d, email = normalize_email (dto_email d),
      createdAt = now, updatedAt = now, isActive = Some True,
      password = dto_password d\<rparr>"

definition create :: "timestamp \<Rightarrow> create_user_dto \<Rightarrow> users_state \<Rightarrow> safe_user \<times> users_state" where
  "create now d s =
     (let newUser = new_user now d (idCounter s)
      in (sanitize newUser, s\<lparr>users := users s @ [newUser], idCounter := js_incr (idCounter s)\<rparr>))"

definition findAll :: "users_state \<Rightarrow> safe_user list" where
  "findAll s = map sanitize (users s)"

definition not_found :: "nat \<Rightarrow> http_error" where
  "not_found i = NotFoundException (''Usuario con id '' @ string_of_nat i @ '' no existe'')"

definition findOne :: "nat \<Rightarrow> users_state \<Rightarrow> http_error + safe_user" where
  "findOne i s =
     (case find (\<lambda>u. user_id u = i) (users s) of
        None \<Rightarrow> Inl (not_found i)
      | Some u \<Rightarrow> Inr (sanitize u))"

definition findByEmail :: "string \<Rightarrow> users_state \<Rightarrow> user option" where
  "findByEmail e s = find (\<lambda>u. email u = normalize_email e) (users s)"

definition findByEmailWithPassword :: "string \<Rightarrow> users_state \<Rightarrow> user option" where
  "findByEmailWithPassword e s = findByEmail e s"

text \<open>The field assignments of \<open>update\<close>, in the order of the source.\<close>

definition apply_update :: "timestamp \<Rightarrow> update_user_dto \<Rightarrow> user \<Rightarrow> user" where
  "apply_update now d u =
     (let u1 = (case upd_nombre d of None \<Rightarrow> u | Some v \<Rightarrow> u\<lparr>nombre := v\<rparr>);
          u2 = (case upd_apellido d of None \<Rightarrow> u1 | Some v \<Rightarrow> u1\<lparr>apellido := v\<rparr>);
          u3 = (case upd_username d of None \<Rightarrow> u2 | Some v \<Rightarrow> u2\<lparr>username := v\<rparr>);
          u4 = (case upd_email d of None \<Rightarrow> u3 | Some v \<Rightarrow> u3\<lparr>email := normalize_email v\<rparr>);
          u5 = (case upd_password d of None \<Rightarrow> u4 | Some v \<Rightarrow> u4\<lparr>password := v\<rparr>)
      in u5\<lparr>updatedAt := now\<rparr>)"

definition update :: "timestamp \<Rightarrow> nat \<Rightarrow> update_user_dto \<Rightarrow> users_state \<Rightarrow>
    (http_error + safe_user) \<times> users_state" where
  "update now i d s =
     (case find (\<lambda>u. user_id u = i) (users s) of
        None \<Rightarrow> (Inl (not_found i), s)
      | Some u \<Rightarrow> (Inr (sanitize (apply_update now d u)),
                   s\<lparr>users := update_first (\<lambda>u. user_id u = i) (apply_update now d) (users s)\<rparr>))"

definition deactivate :: "timestamp \<Rightarrow> user \<Rightarrow> user" where
  "deactivate now u = u\<lparr>isActive := Some False, updatedAt := now\<rparr>"

definition remove :: "timestamp \<Rightarrow> nat \<Rightarrow> users_state \<Rightarrow> (http_error + string) \<times> users_state" where
  "remove now i s =
     (case find (\<lambda>u. user_id u = i) (users s) of
        None \<Rightarrow> (Inl (not_found i), s)
      | Some u \<Rightarrow> (Inr (''Usuario '' @ string_of_nat i @ '' desactivado correctamente''),
                   s\<lparr>users := update_first (\<lambda>u. user_id u = i) (deactivate now) (users s)\<rparr>))"

subsection \<open>The store invariant\<close>

text \<open>
  Ids increase strictly along the array and stay below the counter, the
  counter is positive and at most \<open>2^53\<close>, and every stored address is in
  normal form. E-mail uniqueness is not part of it: the store does not
  enforce it (the register workflow does).
\<close>

definition users_inv :: "users_state \<Rightarrow> bool" where
  "users_inv s \<longleftrightarrow>
     1 \<le> idCounter s \<and> idCounter s \<le> 2 ^ 53 \<and>
     sorted_wrt (<) (map user_id (users s)) \<and>
     (\<forall>u \<in> set (users s). user_id u < idCounter s) \<and>
     (\<forall>u \<in> set (users s). normalize_email (email u) = email u)"

definition emails_unique :: "users_state \<Rightarrow> bool" where
  "emails_unique s \<longleftrightarrow> distinct (map email (users s))"

lemmas users_defs [model_simps] =
  users_service_init_def js_incr_def sanitize_def new_user_def create_def findAll_def findOne_def
  findByEmail_def findByEmailWithPassword_def apply_update_def update_def deactivate_def
  remove_def not_found_def

subsection \<open>Sequences of store operations\<close>

text \<open>
  The methods that change the store, as a datatype of operations with one
  step function, so that a property of every sequence of calls is an
  induction over the list.
\<close>

datatype store_op =
    OpCreate timestamp create_user_dto
  | OpUpdate timestamp nat update_user_dto
  | OpRemove timestamp nat

fun store_step :: "users_state \<Rightarrow> store_op \<Rightarrow> users_state" where
  "store_step s (OpCreate now d) = snd (create now d s)"
| "store_step s (OpUpdate now i d) = snd (update now i d s)"
| "store_step s (OpRemove now i) = snd (remove now i s)"

fun store_run :: "users_state \<Rightarrow> store_op list \<Rightarrow> users_state" where
  "store_run s [] = s"
| "store_run s (op # ops) = store_run (store_step s op) ops"

subsection \<open>The store as a map\<close>

text \<open>
  What the store promises, independent of the array: a finite map from ids
  to users and a counter that gives every new user the next unused id.
  \<open>users_abs\<close> reads the array as that map (the first user with each id,
  the one \<open>find\<close> returns); \<open>store_step_abs\<close> is each mutating method on the
  map, with an unbounded counter.
\<close>

definition users_abs :: "users_state \<Rightarrow> nat \<rightharpoonup> user" where
  "users_abs s = map_of (map (\<lambda>u. (user_id u, u)) (users s))"

fun store_step_abs :: "(nat \<rightharpoonup> user) \<times> nat \<Rightarrow> store_op \<Rightarrow> (nat \<rightharpoonup> user) \<times> nat" where
  "store_step_abs (m, c) (OpCreate now d) = (m(c \<mapsto> new_user now d c), Suc c)"
| "store_step_abs (m, c) (OpUpdate now i d) =
     (case m i of None \<Rightarrow> (m, c) | Some u \<Rightarrow> (m(i \<mapsto> apply_update now d u), c))"
| "store_step_abs (m, c) (OpRemove now i) =
     (case m i of None \<Rightarrow> (m, c) | Some u \<Rightarrow> (m(i \<mapsto> deactivate now u), c))"

definition store_run_abs :: "(nat \<rightharpoonup> user) \<times> nat \<Rightarrow> store_op list \<Rightarrow> (nat \<rightharpoonup> user) \<times> nat" where
  "store_run_abs a ops = foldl store_step_abs a ops"

text \<open>Two concrete stores for the examples below.\<close>

definition demo_dto :: "string \<Rightarrow> create_user_dto" where
  "demo_dto e = \<lparr>dto_nombre = ''Ana'', dto_apellido = ''Diaz'', dto_username = ''anad'',
                  dto_email = e, dto_password = ''h''\<rparr>"

definition demo_two :: users_state where
  "demo_two = store_run users_service_init [OpCreate 0 (demo_dto ''a@x''), OpCreate 0 (demo_dto ''b@x'')]"

subsection \<open>Lemmas on single operations\<close>

lemma sanitize_eq:
  "sanitize u = \<lparr>user_id = user_id u, nombre = nombre u, apellido = apellido u,
     username = username u, email = email u, createdAt = createdAt u,
     updatedAt = updatedAt u, isActive = isActive u\<rparr>"
  by (simp add: sanitize_def safe_user.truncate_def)

lemma user_id_apply_update [simp]: "user_id (apply_update now d u) = user_id u"
  by (simp add: apply_update_def Let_def split: option.splits)

lemma createdAt_apply_update [simp]: "createdAt (apply_update now d u) = createdAt u"
  by (simp add: apply_update_def Let_def split: option.splits)

lemma email_apply_update:
  "email (apply_update now d u) = (case upd_email d of None \<Rightarrow> email u | Some v \<Rightarrow> normalize_email v)"
  by (simp add: apply_update_def Let_def split: option.splits)

lemma user_id_deactivate [simp]: "user_id (deactivate now u) = user_id u"
  and email_deactivate [simp]: "email (deactivate now u) = email u"
  and isActive_deactivate [simp]: "isActive (deactivate now u) = Some False"
  by (simp_all add: deactivate_def)

lemma create_result:
  "create now d s = (sanitize (new_user now d (idCounter s)),
     s\<lparr>users := users s @ [new_user now d (idCounter s)], idCounter := js_incr (idCounter s)\<rparr>)"
  by (simp add: create_def Let_def)

lemma new_user_simps [simp]:
  "user_id (new_user now d i) = i" "email (new_user now d i) = normalize_email (dto_email d)"
  "password (new_user now d i) = dto_password d" "isActive (new_user now d i) = Some True"
  by (simp_all add: new_user_def)

lemma users_inv_init: "users_inv users_service_init"
  by (simp add: users_inv_def users_service_init_def)

lemma create_users_inv:
  assumes "users_inv s" and "idCounter s < 2 ^ 53"
  shows "users_inv (snd (create now d s))"
  using assms by (auto simp: users_inv_def create_result js_incr_def sorted_wrt_append)

lemma update_users_inv:
  assumes "users_inv s"
  shows "users_inv (snd (update now i d s))"
proof (cases "find (\<lambda>u. user_id u = i) (users s)")
  case None
  with assms show ?thesis by (simp add: update_def)
next
  case (Some u)
  let ?xs = "update_first (\<lambda>u. user_id u = i) (apply_update now d) (users s)"
  have ids: "map user_id ?xs = map user_id (users s)" by (rule map_update_first) simp
  have "\<forall>v \<in> set ?xs. user_id v < idCounter s \<and> normalize_email (email v) = email v"
  proof
    fix v assume "v \<in> set ?xs"
    then have "v \<in> set (users s) \<or> (\<exists>x \<in> set (users s). v = apply_update now d x)"
      by (auto dest: set_update_first)
    with assms show "user_id v < idCounter s \<and> normalize_email (email v) = email v"
      by (auto simp: users_inv_def email_apply_update split: option.splits)
  qed
  with assms ids Some show ?thesis by (simp add: update_def users_inv_def)
qed

lemma remove_users_inv:
  assumes "users_inv s"
  shows "users_inv (snd (remove now i s))"
proof (cases "find (\<lambda>u. user_id u = i) (users s)")
  case None
  with assms show ?thesis by (simp add: remove_def)
next
  case (Some u)
  let ?xs = "update_first (\<lambda>u. user_id u = i) (deactivate now) (users s)"
  have ids: "map user_id ?xs = map user_id (users s)" by (rule map_update_first) simp
  have "\<forall>v \<in> set ?xs. user_id v < idCounter s \<and> normalize_email (email v) = email v"
  proof
    fix v assume "v \<in> set ?xs"
    then have "v \<in> set (users s) \<or> (\<exists>x \<in> set (users s). v = deactivate now x)"
      by (auto dest: set_update_first)
    with assms show "user_id v < idCounter s \<and> normalize_email (email v) = email v"
      by (auto simp: users_inv_def)
  qed
  with assms ids Some show ?thesis by (simp add: remove_def users_inv_def)
qed

text \<open>
  Claim C13: After create on a store satisfying the invariant, findOne at
  the assigned id returns exactly the view create returned.
\<close>

theorem findOne_create_new:
  assumes "users_inv s"
  shows "findOne (idCounter s) (snd (create now d s)) = Inr (fst (create now d s))"
proof -
  from assms have "find (\<lambda>u. user_id u = idCounter s) (users s) = None"
    by (auto simp: users_inv_def find_None_iff)
  then show ?thesis by (simp add: findOne_def create_result)
qed

lemma findOne_create_other:
  "i \<noteq> idCounter s \<Longrightarrow> findOne i (snd (create now d s)) = findOne i s"
  by (simp add: findOne_def create_result split: option.splits)

lemma findByEmail_create:
  "findByEmail e (snd (create now d s)) =
     (case findByEmail e s of
        None \<Rightarrow> (if normalize_email (dto_email d) = normalize_email e
                 then Some (new_user now d (idCounter s)) else None)
      | Some u \<Rightarrow> Some u)"
  by (simp add: findByEmail_def create_result)

lemma findOne_update:
  assumes "find (\<lambda>u. user_id u = i) (users s) = Some u"
  shows "update now i d s = (Inr (sanitize (apply_update now d u)), snd (update now i d s))"
    and "findOne i (snd (update now i d s)) = Inr (sanitize (apply_update now d u))"
  using assms by (simp_all add: update_def findOne_def find_update_first)

lemma findOne_remove:
  assumes "find (\<lambda>u. user_id u = i) (users s) = Some u"
  shows "findOne i (snd (remove now i s)) = Inr (sanitize (deactivate now u))"
  using assms by (simp add: remove_def findOne_def find_update_first)

lemma findOne_remove_other:
  assumes "j \<noteq> i"
  shows "findOne j (snd (remove now i s)) = findOne j s"
proof -
  have "find (\<lambda>u. user_id u = j) (update_first (\<lambda>u. user_id u = i) (deactivate now) (users s))
      = find (\<lambda>u. user_id u = j) (users s)"
    by (rule find_update_first_other) (use assms in auto)
  then show ?thesis by (simp add: remove_def findOne_def split: option.splits)
qed

lemma emails_unique_create:
  "emails_unique s \<Longrightarrow> findByEmail (dto_email d) s = None \<Longrightarrow> emails_unique (snd (create now d s))"
  by (auto simp: emails_unique_def create_result findByEmail_def find_None_iff)

subsection \<open>Properties of the store\<close>

lemma idCounter_store_step: "idCounter (store_step s op) \<le> Suc (idCounter s)"
  by (cases op) (auto simp: create_result js_incr_def update_def remove_def split: option.splits)

lemma create_counter_saturated: "idCounter s = 2 ^ 53 \<Longrightarrow> idCounter (snd (create now d s)) = 2 ^ 53"
  by (simp add: create_result js_incr_def)

lemma users_inv_distinct_ids: "users_inv s \<Longrightarrow> distinct (map user_id (users s))"
  by (simp add: users_inv_def strict_sorted_iff)

lemma store_step_users_inv:
  "users_inv s \<Longrightarrow> idCounter s < 2 ^ 53 \<Longrightarrow> users_inv (store_step s op)"
  by (cases op) (simp_all add: create_users_inv update_users_inv remove_users_inv)

text \<open>
  Claim C12: Any sequence of create, update and remove calls from a store
  satisfying the invariant, with room left below 2^53 in the counter, keeps
  the invariant: ids strictly increasing and below the counter, e-mails
  normalised; hence ids pairwise distinct.
\<close>

theorem store_run_users_inv:
  assumes "users_inv s" and "idCounter s + length ops \<le> 2 ^ 53"
  shows "users_inv (store_run s ops) \<and> distinct (map user_id (users (store_run s ops)))"
  using assms
proof (induction ops arbitrary: s)
  case Nil
  then show ?case by (simp add: users_inv_distinct_ids)
next
  case (Cons op ops)
  from Cons.prems have "users_inv (store_step s op)" by (simp add: store_step_users_inv)
  moreover from Cons.prems have "idCounter (store_step s op) + length ops \<le> 2 ^ 53"
    using idCounter_store_step [of s op] by simp
  ultimately show ?case using Cons.IH by simp
qed

theorem findOne_create_new_witness:
  "users_inv users_service_init \<and>
   findOne (idCounter users_service_init) (snd (create 0 (demo_dto ''a@x'') users_service_init))
     = Inr (fst (create 0 (demo_dto ''a@x'') users_service_init))"
  using findOne_create_new [OF users_inv_init] users_inv_init by simp

theorem store_run_users_inv_witness:
  "users_inv users_service_init \<and> idCounter users_service_init + length [OpCreate 0 (demo_dto ''a@x'')] \<le> 2 ^ 53 \<and>
   users_inv (store_run users_service_init [OpCreate 0 (demo_dto ''a@x'')])"
proof -
  have "idCounter users_service_init + length [OpCreate 0 (demo_dto ''a@x'')] \<le> 2 ^ 53"
    by (simp add: users_service_init_def)
  with store_run_users_inv [OF users_inv_init this] users_inv_init show ?thesis by simp
qed

text \<open>
  Claim C15: Once idCounter reaches 2^53 the JavaScript increment no longer
  changes it and two consecutive creates assign the same id.
\<close>

theorem id_counter_saturation:
  assumes "idCounter s = 2 ^ 53"
  shows "user_id (fst (create now d s)) = user_id (fst (create now' d' (snd (create now d s))))"
  using assms by (simp add: create_result js_incr_def sanitize_def safe_user.truncate_def)

theorem id_counter_saturation_witness:
  "idCounter \<lparr>users = [], idCounter = 2 ^ 53\<rparr> = 2 ^ 53 \<and>
   user_id (fst (create 0 (demo_dto ''a@x'') \<lparr>users = [], idCounter = 2 ^ 53\<rparr>)) =
   user_id (fst (create 0 (demo_dto ''b@x'') (snd (create 0 (demo_dto ''a@x'') \<lparr>users = [], idCounter = 2 ^ 53\<rparr>))))"
  using id_counter_saturation [of "\<lparr>users = [], idCounter = 2 ^ 53\<rparr>" 0 "demo_dto ''a@x''" 0 "demo_dto ''b@x''"]
  by simp

lemma demo_two_eq:
  "demo_two = \<lparr>users = [new_user 0 (demo_dto ''a@x'') 1, new_user 0 (demo_dto ''b@x'') 2], idCounter = 3\<rparr>"
proof -
  have "js_incr 1 = 2" "js_incr 2 = 3" by (simp_all add: js_incr_def)
  then show ?thesis by (simp add: demo_two_def create_result users_service_init_def)
qed

lemma demo_norm: "normalize_email ''a@x'' = ''a@x''" "normalize_email ''b@x'' = ''b@x''"
  "normalize_email ''B@x'' = ''b@x''"
  by code_simp+

lemma in_set_update_first_other:
  "v \<in> set xs \<Longrightarrow> \<not> P v \<Longrightarrow> v \<in> set (update_first P f xs)"
  by (induction xs) auto

text \<open>
  Claim C16: For any store, any existing user u and any other user v: an
  update of u whose dto e-mail normalises to v's e-mail succeeds, returns
  the sanitised updated u, and leaves two users with one e-mail.
\<close>

theorem update_breaks_email_uniqueness:
  assumes u: "find (\<lambda>w. user_id w = user_id u) (users s) = Some u" and v: "v \<in> set (users s)"
    and ne: "user_id v \<noteq> user_id u" and e: "upd_email d = Some e" and n: "normalize_email e = email v"
  shows "fst (update now (user_id u) d s) = Inr (sanitize (apply_update now d u)) \<and>
         \<not> emails_unique (snd (update now (user_id u) d s))"
proof -
  let ?P = "\<lambda>w. user_id w = user_id u" and ?f = "apply_update now d"
  let ?xs = "update_first ?P ?f (users s)"
  from u have r: "fst (update now (user_id u) d s) = Inr (sanitize (?f u))" and
    st: "users (snd (update now (user_id u) d s)) = ?xs"
    by (simp_all add: update_def)
  obtain ys zs where "users s = ys @ u # zs" "?xs = ys @ ?f u # zs"
    using update_first_split [OF u, of ?f] by blast
  then have fu: "?f u \<in> set ?xs" by simp
  from v ne have vx: "v \<in> set ?xs" by (simp add: in_set_update_first_other)
  have "email (?f u) = email v" using e n by (simp add: email_apply_update)
  moreover have "?f u \<noteq> v" using ne by auto
  ultimately have "\<not> distinct (map email ?xs)"
    using fu vx by (auto simp: distinct_map inj_on_def)
  with r st show ?thesis by (simp add: emails_unique_def)
qed

theorem update_breaks_email_uniqueness_witness:
  "emails_unique demo_two \<and>
   \<not> emails_unique (snd (update 1 1 \<lparr>upd_nombre = None, upd_apellido = None, upd_username = None,
        upd_email = Some ''B@x'', upd_password = None\<rparr> demo_two))"
proof -
  let ?u = "new_user 0 (demo_dto ''a@x'') 1" and ?v = "new_user 0 (demo_dto ''b@x'') 2"
  let ?d = "\<lparr>upd_nombre = None, upd_apellido = None, upd_username = None, upd_email = Some ''B@x'', upd_password = None\<rparr>"
  have h1: "find (\<lambda>w. user_id w = user_id ?u) (users demo_two) = Some ?u" by (simp add: demo_two_eq)
  have h2: "?v \<in> set (users demo_two)" by (simp add: demo_two_eq)
  have h3: "user_id ?v \<noteq> user_id ?u" by simp
  have h4: "upd_email ?d = Some ''B@x''" by simp
  have h5: "normalize_email ''B@x'' = email ?v" by (simp add: demo_norm demo_dto_def)
  have "emails_unique demo_two" by (simp add: demo_two_eq emails_unique_def demo_dto_def demo_norm)
  with update_breaks_email_uniqueness [OF h1 h2 h3 h4 h5, of 1] show ?thesis by simp
qed
text \<open>
  Claim C14: For an id no stored user has, findOne, update and remove throw
  NotFoundException('Usuario con id <id> no existe') and leave the store
  unchanged.
\<close>

theorem absent_id_errors:
  assumes "\<forall>u \<in> set (users s). user_id u \<noteq> i"
  shows "findOne i s = Inl (not_found i) \<and> update now i d s = (Inl (not_found i), s) \<and>
         remove now i s = (Inl (not_found i), s)"
proof -
  from assms have "find (\<lambda>u. user_id u = i) (users s) = None" by (simp add: find_None_iff)
  then show ?thesis by (simp add: findOne_def update_def remove_def)
qed

theorem absent_id_errors_witness:
  "findOne 5 users_service_init = Inl (not_found 5) \<and>
   update 0 5 \<lparr>upd_nombre = None, upd_apellido = None, upd_username = None, upd_email = None, upd_password = None\<rparr> users_service_init = (Inl (not_found 5), users_service_init) \<and>
   remove 0 5 users_service_init = (Inl (not_found 5), users_service_init)"
  using absent_id_errors [of users_service_init 5 0 "\<lparr>upd_nombre = None, upd_apellido = None, upd_username = None, upd_email = None, upd_password = None\<rparr>"] by (simp add: users_service_init_def)


text \<open>
  Claim C22: A successful update(id, dto) of a stored user returns the
  sanitised stored result. The stored user keeps its id and createdAt, gets
  updatedAt = now, keeps isActive, takes each of nombre, apellido, username
  and normalised email from the dto when the dto gives it (else keeps the
  old value), and stores the dto's password verbatim when it gives one.
\<close>

theorem update_effect:
  assumes "find (\<lambda>u. user_id u = i) (users s) = Some u"
  shows "\<exists>v w. fst (update now i d s) = Inr v \<and> findOne i (snd (update now i d s)) = Inr v \<and>
             find (\<lambda>u. user_id u = i) (users (snd (update now i d s))) = Some w \<and> v = sanitize w \<and>
             user_id v = i \<and> createdAt v = createdAt u \<and> updatedAt v = now \<and> isActive v = isActive u \<and>
             nombre v = (case upd_nombre d of None \<Rightarrow> nombre u | Some x \<Rightarrow> x) \<and>
             apellido v = (case upd_apellido d of None \<Rightarrow> apellido u | Some x \<Rightarrow> x) \<and>
             username v = (case upd_username d of None \<Rightarrow> username u | Some x \<Rightarrow> x) \<and>
             email v = (case upd_email d of None \<Rightarrow> email u | Some x \<Rightarrow> normalize_email x) \<and>
             password w = (case upd_password d of None \<Rightarrow> password u | Some x \<Rightarrow> x)"
proof -
  let ?w = "apply_update now d u"
  from assms have "user_id u = i" by (auto dest: find_SomeD)
  moreover from assms have "fst (update now i d s) = Inr (sanitize ?w)" by (simp add: update_def)
  moreover from assms have "findOne i (snd (update now i d s)) = Inr (sanitize ?w)" by (rule findOne_update(2))
  moreover from assms have "find (\<lambda>u. user_id u = i) (users (snd (update now i d s))) = Some ?w"
    by (simp add: update_def find_update_first)
  ultimately show ?thesis
    by (intro exI [of _ "sanitize ?w"] exI [of _ ?w])
       (auto simp: sanitize_eq apply_update_def Let_def split: option.splits)
qed

theorem update_effect_witness:
  "\<exists>v. fst (update 7 1 \<lparr>upd_nombre = Some ''Anita'', upd_apellido = None, upd_username = None,
                        upd_email = None, upd_password = None\<rparr> demo_two) = Inr v \<and>
       user_id v = 1 \<and> nombre v = ''Anita'' \<and> updatedAt v = 7"
proof -
  have h: "find (\<lambda>u. user_id u = 1) (users demo_two) = Some (new_user 0 (demo_dto ''a@x'') 1)"
    by (simp add: demo_two_eq)
  show ?thesis
    using update_effect [OF h, of 7 "\<lparr>upd_nombre = Some ''Anita'', upd_apellido = None, upd_username = None,
                        upd_email = None, upd_password = None\<rparr>"] by auto
qed

text \<open>
  Claim C23: remove of an existing id returns the deactivation message,
  leaves the user stored with isActive false and updatedAt now (a soft
  delete), and changes no other user.
\<close>

theorem remove_effect:
  assumes "find (\<lambda>u. user_id u = i) (users s) = Some u"
  shows "fst (remove now i s) = Inr (''Usuario '' @ string_of_nat i @ '' desactivado correctamente'') \<and>
         findOne i (snd (remove now i s)) = Inr (sanitize (deactivate now u)) \<and>
         isActive (deactivate now u) = Some False \<and> updatedAt (deactivate now u) = now \<and>
         (\<forall>j. j \<noteq> i \<longrightarrow> findOne j (snd (remove now i s)) = findOne j s)"
  using assms findOne_remove [OF assms, of now] findOne_remove_other [of _ i now s]
  by (simp add: remove_def deactivate_def)

theorem remove_effect_witness:
  "fst (remove 9 2 demo_two) = Inr (''Usuario '' @ string_of_nat 2 @ '' desactivado correctamente'') \<and>
   findOne 2 (snd (remove 9 2 demo_two)) = Inr (sanitize (deactivate 9 (new_user 0 (demo_dto ''b@x'') 2))) \<and>
   findOne 1 (snd (remove 9 2 demo_two)) = findOne 1 demo_two"
proof -
  have h: "find (\<lambda>u. user_id u = 2) (users demo_two) = Some (new_user 0 (demo_dto ''b@x'') 2)"
    by (simp add: demo_two_eq)
  show ?thesis using remove_effect [OF h, of 9] by simp
qed

lemma users_abs_find: "users_abs s i = find (\<lambda>u. user_id u = i) (users s)"
  by (simp add: users_abs_def map_of_keyed)

lemma findOne_abs:
  "findOne i s = (case users_abs s i of None \<Rightarrow> Inl (not_found i) | Some u \<Rightarrow> Inr (sanitize u))"
  by (simp add: findOne_def users_abs_find)

lemma store_step_refines:
  assumes "users_inv s" and "idCounter s < 2 ^ 53"
  shows "(users_abs (store_step s op), idCounter (store_step s op)) = store_step_abs (users_abs s, idCounter s) op"
proof (cases op)
  case (OpCreate now d)
  from assms(1) have "idCounter s \<notin> fst ` set (map (\<lambda>u. (user_id u, u)) (users s))"
    by (auto simp: users_inv_def)
  then have "users_abs (snd (create now d s)) = (users_abs s)(idCounter s \<mapsto> new_user now d (idCounter s))"
    by (simp add: create_result users_abs_def map_of_snoc_fresh del: map_of_append)
  with assms(2) OpCreate show ?thesis by (simp add: create_result js_incr_def)
next
  case (OpUpdate now i d)
  then show ?thesis
    by (simp add: update_def users_abs_def map_of_keyed_update_first map_of_keyed split: option.splits)
next
  case (OpRemove now i)
  then show ?thesis
    by (simp add: remove_def users_abs_def map_of_keyed_update_first map_of_keyed split: option.splits)
qed

text \<open>
  Claim C24: From a store satisfying the invariant, with as many free ids
  below 2^53 as operations, any sequence of create, update and remove calls
  acts on the store read as a map from ids to users exactly as the abstract
  map operations do (create inserts at the next id, update and remove
  replace the user at an existing id, and an absent id changes nothing).
\<close>

theorem store_run_refines:
  assumes "users_inv s" and "idCounter s + length ops \<le> 2 ^ 53"
  shows "(users_abs (store_run s ops), idCounter (store_run s ops)) = store_run_abs (users_abs s, idCounter s) ops"
  using assms
proof (induction ops arbitrary: s)
  case Nil
  then show ?case by (simp add: store_run_abs_def)
next
  case (Cons op ops)
  from Cons.prems have lt: "idCounter s < 2 ^ 53" by simp
  with Cons.prems have "users_inv (store_step s op)" by (simp add: store_step_users_inv)
  moreover from Cons.prems have "idCounter (store_step s op) + length ops \<le> 2 ^ 53"
    using idCounter_store_step [of s op] by simp
  ultimately show ?case
    using Cons.IH store_step_refines [OF Cons.prems(1) lt, of op] by (simp add: store_run_abs_def)
qed

theorem store_run_refines_witness:
  "users_inv users_service_init \<and>
   idCounter users_service_init + length [OpCreate 0 (demo_dto ''a@x''), OpRemove 5 1] \<le> 2 ^ 53 \<and>
   (users_abs (store_run users_service_init [OpCreate 0 (demo_dto ''a@x''), OpRemove 5 1]),
    idCounter (store_run users_service_init [OpCreate 0 (demo_dto ''a@x''), OpRemove 5 1]))
   = store_run_abs (users_abs users_service_init, idCounter users_service_init) [OpCreate 0 (demo_dto ''a@x''), OpRemove 5 1]"
proof -
  have b: "idCounter users_service_init + length [OpCreate 0 (demo_dto ''a@x''), OpRemove 5 1] \<le> 2 ^ 53"
    by (simp add: users_service_init_def)
  show ?thesis using store_run_refines [OF users_inv_init b] users_inv_init b by simp
qed


end
