(* ===== verification/Hasher.thy ===== *)
theory Hasher
  imports Prelude
begin

text \<open>
  The credential hasher: the two functions of the \<open>bcrypt\<close> package the
  auth service calls, \<open>bcrypt.hash(plaintext, saltRounds)\<close> and
  \<open>bcrypt.compare(plaintext, digest)\<close>. The package is a library, not code
  of the repository, so it is an interface: a record of the two functions,
  with the salt that \<open>hash\<close> draws at random made an explicit argument.
  What the service relies on is the predicate \<open>hasher_correct\<close>, the
  behaviour of an ideal bcrypt: a digest verifies exactly the passwords that
  agree with the hashed one on their first 72 bytes (bcrypt ignores the
  rest). The services' lemmas are stated for any hasher satisfying it;
  \<open>demo_hasher\<close> shows it is satisfiable and evaluates in the examples.
\<close>

record hasher =
  bc_hash :: "string \<Rightarrow> nat \<Rightarrow> string \<Rightarrow> string" \<comment> \<open>plaintext, salt rounds, salt\<close>
  bc_compare :: "string \<Rightarrow> string \<Rightarrow> bool" \<comment> \<open>plaintext, digest\<close>

definition bcrypt_max_bytes :: nat where
  "bcrypt_max_bytes = 72"

definition hasher_correct :: "hasher \<Rightarrow> bool" where
  "hasher_correct H \<longleftrightarrow>
     (\<forall>pw pw' rounds salt. bc_compare H pw (bc_hash H pw' rounds salt) \<longleftrightarrow>
        take bcrypt_max_bytes pw = take bcrypt_max_bytes pw')"

text \<open>A transparent stand-in for bcrypt, used only to evaluate examples.\<close>

definition demo_hasher :: hasher where
  "demo_hasher =
     \<lparr>bc_hash = (\<lambda>pw rounds salt. ''$2b$'' @ take bcrypt_max_bytes pw),
      bc_compare = (\<lambda>pw h. h = ''$2b$'' @ take bcrypt_max_bytes pw)\<rparr>"

lemma hasher_correct_compare_hash [simp]:
  "hasher_correct H \<Longrightarrow> bc_compare H pw (bc_hash H pw rounds salt)"
  by (simp add: hasher_correct_def)

lemma hasher_correct_compare_iff:
  "hasher_correct H \<Longrightarrow>
     bc_compare H pw (bc_hash H pw' rounds salt) \<longleftrightarrow> take bcrypt_max_bytes pw = take bcrypt_max_bytes pw'"
  by (simp add: hasher_correct_def)

lemma demo_hasher_correct: "hasher_correct demo_hasher"
  by (auto simp: hasher_correct_def demo_hasher_def)

end
