(* ===== verification/Jwt.thy ===== *)
theory Jwt
  imports JsString
begin

text \<open>
  Token issue and validation. The repository configures two libraries:
  \<open>@nestjs/jwt\<close> signs the login payload (\<open>jwtService.signAsync\<close>,
  \<open>auth.service.ts\<close> line 87, with the module options of \<open>auth.module.ts\<close>,
  which is not in the repository), and \<open>passport-jwt\<close> validates incoming
  tokens with the options of the \<open>JwtStrategy\<close> constructor and hands the
  decoded payload to \<open>JwtStrategy.validate\<close>
  (\<open>src/auth/strategies/jwt.strategy.ts\<close>), behind the guard
  \<open>JwtAuthGuard\<close> (\<open>AuthGuard('jwt')\<close>, in \<open>guards/jwt-auth.guard.ts\<close>,
  not in the repository).

  The signature primitive (HMAC-SHA256) and the compact serialisation
  (base64url of header, payload and signature) are an interface, the record
  \<open>jwt_lib\<close>; the signature type is a type variable. What jsonwebtoken does
  with them is modelled from its documented behaviour: \<open>sign\<close> adds \<open>iat\<close>
  (the current time in whole seconds) and \<open>exp = iat + expiresIn\<close>;
  \<open>verify\<close> rejects a token that does not decode, then one whose signature
  is not the MAC of its payload under the secret, then, unless
  \<open>ignoreExpiration\<close>, one whose \<open>exp\<close> is not after the current second.
  \<open>ExtractJwt.fromAuthHeaderAsBearerToken\<close> is modelled from passport-jwt's
  header parser (the regular expression \<open>(\S+)\s+(\S+)\<close> and a
  case-insensitive comparison of the scheme with \<open>bearer\<close>).
\<close>

subsection \<open>Claims and tokens\<close>

text \<open>The \<open>payload\<close> object of \<open>AuthService.login\<close>, and what \<open>sign\<close> adds to it.\<close>

record jwt_claims =
  sub :: nat
  claim_email :: string
  claim_nombre :: string
  claim_username :: string

record jwt_payload = jwt_claims +
  iat :: seconds
  exp :: seconds

record 'sig jwt_lib =
  jl_mac :: "string \<Rightarrow> jwt_payload \<Rightarrow> 'sig" \<comment> \<open>HMAC under a secret\<close>
  jl_encode :: "jwt_payload \<Rightarrow> 'sig \<Rightarrow> string" \<comment> \<open>compact serialisation\<close>
  jl_decode :: "string \<Rightarrow> (jwt_payload \<times> 'sig) option"

text \<open>\<open>JwtModule.register({secret, signOptions: {expiresIn}})\<close> in \<open>auth.module.ts\<close>.\<close>

record jwt_module_options =
  jm_secret :: string
  jm_expires_in :: seconds

definition JWT_SECRET :: string where
  "JWT_SECRET = ''mi_clave_secreta_muy_segura_2024''"

text \<open>\<open>Math.floor(Date.now() / 1000)\<close>.\<close>

definition seconds_of :: "timestamp \<Rightarrow> seconds" where
  "seconds_of now = now div 1000"

definition sign_payload :: "jwt_module_options \<Rightarrow> timestamp \<Rightarrow> jwt_claims \<Rightarrow> jwt_payload" where
  "sign_payload opts now c =
     \<lparr>sub = sub c, claim_email = claim_email c, claim_nombre = claim_nombre c,
      claim_username = claim_username c, iat = seconds_of now,
      exp = seconds_of now + jm_expires_in opts\<rparr>"

definition signAsync :: "'sig jwt_lib \<Rightarrow> jwt_module_options \<Rightarrow> timestamp \<Rightarrow> jwt_claims \<Rightarrow> string" where
  "signAsync L opts now c =
     (let p = sign_payload opts now c in jl_encode L p (jl_mac L (jm_secret opts) p))"

datatype jwt_error = JwtMalformed | InvalidSignature | TokenExpired seconds

definition jwt_verify ::
    "'sig jwt_lib \<Rightarrow> string \<Rightarrow> bool \<Rightarrow> timestamp \<Rightarrow> string \<Rightarrow> jwt_error + jwt_payload" where
  "jwt_verify L secret ignore_exp now tok =
     (case jl_decode L tok of
        None \<Rightarrow> Inl JwtMalformed
      | Some (p, sg) \<Rightarrow>
          if sg \<noteq> jl_mac L secret p then Inl InvalidSignature
          else if \<not> ignore_exp \<and> exp p \<le> seconds_of now then Inl (TokenExpired (exp p))
          else Inr p)"

subsection \<open>The JWT strategy\<close>

record jwt_strategy_options =
  ignoreExpiration :: bool
  secretOrKey :: string

text \<open>The \<open>super({...})\<close> call of the \<open>JwtStrategy\<close> constructor.\<close>

definition jwt_strategy_options :: jwt_strategy_options where
  "jwt_strategy_options = \<lparr>ignoreExpiration = False, secretOrKey = JWT_SECRET\<rparr>"

text \<open>What \<open>validate(payload)\<close> returns becomes \<open>req.user\<close>.\<close>

record req_user =
  userId :: nat
  ru_email :: string
  ru_nombre :: string

definition validate :: "jwt_payload \<Rightarrow> req_user" where
  "validate p = \<lparr>userId = sub p, ru_email = claim_email p, ru_nombre = claim_nombre p\<rparr>"

subsection \<open>Bearer token extraction and the guard\<close>

text \<open>
  passport-jwt's \<open>parseAuthHeader\<close>: the first match of \<open>(\S+)\s+(\S+)\<close>.
  The leftmost match starts at the first non-space character; both groups
  are greedy.
\<close>

definition parse_auth_header :: "string \<Rightarrow> (string \<times> string) option" where
  "parse_auth_header h =
     (let r0 = dropWhile js_is_space h;
          scheme = takeWhile (\<lambda>c. \<not> js_is_space c) r0;
          r1 = dropWhile (\<lambda>c. \<not> js_is_space c) r0;
          value = takeWhile (\<lambda>c. \<not> js_is_space c) (dropWhile js_is_space r1)
      in if scheme = [] \<or> value = [] then None else Some (scheme, value))"

definition fromAuthHeaderAsBearerToken :: "string option \<Rightarrow> string option" where
  "fromAuthHeaderAsBearerToken hdr =
     (case hdr of
        None \<Rightarrow> None
      | Some h \<Rightarrow>
          (case parse_auth_header h of
             None \<Rightarrow> None
           | Some (scheme, value) \<Rightarrow> if toLowerCase scheme = ''bearer'' then Some value else None))"

definition unauthorized :: http_error where
  "unauthorized = UnauthorizedException ''Unauthorized''"

text \<open>
  \<open>AuthGuard('jwt')\<close>: extract the token, verify it with the strategy's
  options, and on success pass \<open>validate\<close> of the payload on as
  \<open>req.user\<close>; every failure is the guard's generic 401.
\<close>

definition jwt_auth_guard :: "'sig jwt_lib \<Rightarrow> timestamp \<Rightarrow> string option \<Rightarrow> http_error + req_user" where
  "jwt_auth_guard L now hdr =
     (case fromAuthHeaderAsBearerToken hdr of
        None \<Rightarrow> Inl unauthorized
      | Some tok \<Rightarrow>
          (case jwt_verify L (secretOrKey jwt_strategy_options) (ignoreExpiration jwt_strategy_options) now tok of
             Inl _ \<Rightarrow> Inl unauthorized
           | Inr p \<Rightarrow> Inr (validate p)))"

subsection \<open>A stand-in library for examples\<close>

text \<open>
  \<open>demo_jwt_lib p0\<close> signs with the pair of secret and payload and decodes
  its one token to \<open>p0\<close> signed under \<open>JWT_SECRET\<close>; it only serves to
  evaluate the examples.
\<close>

definition demo_jwt_lib :: "jwt_payload \<Rightarrow> (string \<times> jwt_payload) jwt_lib" where
  "demo_jwt_lib p0 =
     \<lparr>jl_mac = Pair, jl_encode = (\<lambda>p sg. ''eyJ.demo.sig''),
      jl_decode = (\<lambda>t. if t = ''eyJ.demo.sig'' then Some (p0, (JWT_SECRET, p0)) else None)\<rparr>"

definition demo_payload :: jwt_payload where
  "demo_payload = \<lparr>sub = 1, claim_email = ''ana@test.com'', claim_nombre = ''Ana'',
                   claim_username = ''anad'', iat = 0, exp = 10\<rparr>"

subsection \<open>Properties of issue, validation and extraction\<close>

lemma jwt_verify_signed:
  assumes "jl_decode L (signAsync L opts now c) = Some (sign_payload opts now c, jl_mac L (jm_secret opts) (sign_payload opts now c))"
    and "seconds_of now' < seconds_of now + jm_expires_in opts"
  shows "jwt_verify L (jm_secret opts) False now' (signAsync L opts now c) = Inr (sign_payload opts now c)"
  using assms by (simp add: jwt_verify_def sign_payload_def)

lemma jwt_verify_Inr:
  "jwt_verify L secret ignore_exp now tok = Inr p \<Longrightarrow>
     jl_decode L tok = Some (p, jl_mac L secret p) \<and> (\<not> ignore_exp \<longrightarrow> seconds_of now < exp p)"
  by (auto simp: jwt_verify_def split: option.splits if_splits)

text \<open>
  Claim C5: Every token the JwtStrategy accepts decodes to a payload
  carrying the MAC of that payload under JWT_SECRET and an exp after the
  current second.
\<close>

theorem strategy_accepts_only_fresh_signed:
  "jwt_verify L (secretOrKey jwt_strategy_options) (ignoreExpiration jwt_strategy_options) now tok = Inr p \<Longrightarrow>
     jl_decode L tok = Some (p, jl_mac L JWT_SECRET p) \<and> seconds_of now < exp p"
  using jwt_verify_Inr [of L "secretOrKey jwt_strategy_options" "ignoreExpiration jwt_strategy_options" now tok p]
  by (simp add: jwt_strategy_options_def)

lemma bearer_chars: "takeWhile (\<lambda>c. \<not> js_is_space c) (''Bearer '' @ tok) = ''Bearer''"
   "dropWhile (\<lambda>c. \<not> js_is_space c) (''Bearer '' @ tok) = '' '' @ tok"
   "dropWhile js_is_space (''Bearer '' @ tok) = ''Bearer '' @ tok"
  by (simp_all add: js_is_space_def)

lemma bearer_extract:
  assumes "tok \<noteq> []" and "\<forall>c \<in> set tok. \<not> js_is_space c"
  shows "fromAuthHeaderAsBearerToken (Some (''Bearer '' @ tok)) = Some tok"
proof -
  from assms have d: "dropWhile js_is_space ('' '' @ tok) = tok"
    by (cases tok) (simp_all add: js_is_space_def)
  from assms have t: "takeWhile (\<lambda>c. \<not> js_is_space c) tok = tok" by simp
  have p: "parse_auth_header (''Bearer '' @ tok) = Some (''Bearer'', tok)"
    unfolding parse_auth_header_def Let_def bearer_chars by (simp only: d t) (use assms in simp)
  have "toLowerCase ''Bearer'' = ''bearer''" by code_simp
  with p show ?thesis by (simp add: fromAuthHeaderAsBearerToken_def)
qed

theorem strategy_accepts_only_fresh_signed_witness:
  "jwt_verify (demo_jwt_lib demo_payload) (secretOrKey jwt_strategy_options) (ignoreExpiration jwt_strategy_options) 0 ''eyJ.demo.sig'' = Inr demo_payload \<and>
   jl_decode (demo_jwt_lib demo_payload) ''eyJ.demo.sig'' = Some (demo_payload, jl_mac (demo_jwt_lib demo_payload) JWT_SECRET demo_payload) \<and>
   seconds_of 0 < exp demo_payload"
proof -
  have h: "jwt_verify (demo_jwt_lib demo_payload) (secretOrKey jwt_strategy_options) (ignoreExpiration jwt_strategy_options) 0 ''eyJ.demo.sig'' = Inr demo_payload"
    by (simp add: jwt_verify_def demo_jwt_lib_def jwt_strategy_options_def seconds_of_def demo_payload_def)
  show ?thesis using h strategy_accepts_only_fresh_signed [OF h] by simp
qed

text \<open>
  Claim C4: With the JwtStrategy options (ignoreExpiration false, secret
  JWT_SECRET), a correctly signed token whose exp is not after the current
  second is rejected as expired.
\<close>

theorem expired_token_rejected:
  assumes "jl_decode L tok = Some (p, jl_mac L JWT_SECRET p)" and "exp p \<le> seconds_of now"
  shows "jwt_verify L (secretOrKey jwt_strategy_options) (ignoreExpiration jwt_strategy_options) now tok = Inl (TokenExpired (exp p))"
  using assms by (simp add: jwt_verify_def jwt_strategy_options_def)

theorem expired_token_rejected_witness:
  "jl_decode (demo_jwt_lib demo_payload) ''eyJ.demo.sig'' = Some (demo_payload, jl_mac (demo_jwt_lib demo_payload) JWT_SECRET demo_payload) \<and>
   exp demo_payload \<le> seconds_of 20000 \<and>
   jwt_verify (demo_jwt_lib demo_payload) (secretOrKey jwt_strategy_options) (ignoreExpiration jwt_strategy_options) 20000 ''eyJ.demo.sig''
     = Inl (TokenExpired (exp demo_payload))"
proof -
  have h: "jl_decode (demo_jwt_lib demo_payload) ''eyJ.demo.sig'' = Some (demo_payload, jl_mac (demo_jwt_lib demo_payload) JWT_SECRET demo_payload)"
    "exp demo_payload \<le> seconds_of 20000"
    by (simp_all add: demo_jwt_lib_def demo_payload_def seconds_of_def)
  show ?thesis using h expired_token_rejected [OF h] by simp
qed


text \<open>
  Claim C20: A token signed with a module secret other than JWT_SECRET
  (whose MAC differs) is rejected by the strategy's verification with an
  invalid-signature error, whatever the time.
\<close>

theorem foreign_secret_rejected:
  assumes "jm_secret opts \<noteq> JWT_SECRET"
    and "jl_mac L (jm_secret opts) (sign_payload opts now c) \<noteq> jl_mac L JWT_SECRET (sign_payload opts now c)"
    and "jl_decode L (signAsync L opts now c) = Some (sign_payload opts now c, jl_mac L (jm_secret opts) (sign_payload opts now c))"
  shows "jwt_verify L (secretOrKey jwt_strategy_options) (ignoreExpiration jwt_strategy_options) now' (signAsync L opts now c)
         = Inl InvalidSignature"
  using assms by (simp add: jwt_verify_def jwt_strategy_options_def)

theorem foreign_secret_rejected_witness:
  "jwt_verify \<lparr>jl_mac = Pair, jl_encode = (\<lambda>p sg. ''t''),
               jl_decode = (\<lambda>t. Some (sign_payload \<lparr>jm_secret = ''other'', jm_expires_in = 60\<rparr> 0 (jwt_claims.truncate demo_payload),
                                       (''other'', sign_payload \<lparr>jm_secret = ''other'', jm_expires_in = 60\<rparr> 0 (jwt_claims.truncate demo_payload))))\<rparr>
     (secretOrKey jwt_strategy_options) (ignoreExpiration jwt_strategy_options) 0
     (signAsync \<lparr>jl_mac = Pair, jl_encode = (\<lambda>p sg. ''t''),
               jl_decode = (\<lambda>t. Some (sign_payload \<lparr>jm_secret = ''other'', jm_expires_in = 60\<rparr> 0 (jwt_claims.truncate demo_payload),
                                       (''other'', sign_payload \<lparr>jm_secret = ''other'', jm_expires_in = 60\<rparr> 0 (jwt_claims.truncate demo_payload))))\<rparr>
        \<lparr>jm_secret = ''other'', jm_expires_in = 60\<rparr> 0 (jwt_claims.truncate demo_payload))
   = Inl InvalidSignature"
  by (rule foreign_secret_rejected) (simp_all add: JWT_SECRET_def signAsync_def)

lemma takeWhile_infix: "\<exists>a b. xs = a @ takeWhile P (dropWhile Q xs) @ b"
proof -
  have "xs = takeWhile Q xs @ dropWhile Q xs" by simp
  also have "dropWhile Q xs = takeWhile P (dropWhile Q xs) @ dropWhile P (dropWhile Q xs)" by simp
  finally show ?thesis by blast
qed

lemma bearer_token_shape:
  assumes "fromAuthHeaderAsBearerToken (Some h) = Some tok"
  shows "tok \<noteq> [] \<and> (\<forall>c \<in> set tok. \<not> js_is_space c) \<and> (\<exists>a b. h = a @ tok @ b)"
proof -
  define r0 where "r0 = dropWhile js_is_space h"
  define r1 where "r1 = dropWhile (\<lambda>c. \<not> js_is_space c) r0"
  define v where "v = takeWhile (\<lambda>c. \<not> js_is_space c) (dropWhile js_is_space r1)"
  from assms have tv: "tok = v" and ne: "v \<noteq> []"
    by (auto simp: fromAuthHeaderAsBearerToken_def parse_auth_header_def Let_def r0_def r1_def v_def
             split: option.splits if_splits)
  have sp: "\<forall>c \<in> set v. \<not> js_is_space c" unfolding v_def by (auto dest: set_takeWhileD)
  obtain a b where "r1 = a @ v @ b" unfolding v_def using takeWhile_infix by blast
  moreover obtain a' where "r0 = a' @ r1"
    unfolding r1_def by (metis takeWhile_dropWhile_id)
  moreover obtain a'' where "h = a'' @ r0"
    unfolding r0_def by (metis takeWhile_dropWhile_id)
  ultimately have "h = (a'' @ a' @ a) @ v @ b" by simp
  with tv ne sp show ?thesis by blast
qed


lemma bearer_scheme:
  "fromAuthHeaderAsBearerToken (Some h) = Some tok \<longleftrightarrow>
     toLowerCase (takeWhile (\<lambda>c. \<not> js_is_space c) (dropWhile js_is_space h)) = ''bearer'' \<and>
     tok = takeWhile (\<lambda>c. \<not> js_is_space c)
             (dropWhile js_is_space (dropWhile (\<lambda>c. \<not> js_is_space c) (dropWhile js_is_space h))) \<and>
     tok \<noteq> []"
  by (auto simp: fromAuthHeaderAsBearerToken_def parse_auth_header_def Let_def split: if_splits)
    (simp_all add: toLowerCase_def)

lemma bearer_scheme_None:
  assumes "toLowerCase (takeWhile (\<lambda>c. \<not> js_is_space c) (dropWhile js_is_space h)) \<noteq> ''bearer''"
  shows "fromAuthHeaderAsBearerToken (Some h) = None"
  using assms bearer_scheme [of h] by (cases "fromAuthHeaderAsBearerToken (Some h)") auto


text \<open>
  Claim C21: JwtAuthGuard accepts a request only if the first word of its
  Authorization header is 'bearer' in some letter case and the second word
  is a non-empty token that decodes to a payload carrying the MAC under
  JWT_SECRET with exp after the current second; req.user is then validate of
  that payload.
\<close>

theorem guard_accepts_only_bearer_fresh:
  assumes "jwt_auth_guard L now (Some h) = Inr ru"
  shows "toLowerCase (takeWhile (\<lambda>c. \<not> js_is_space c) (dropWhile js_is_space h)) = ''bearer'' \<and>
         (\<exists>tok p. tok = takeWhile (\<lambda>c. \<not> js_is_space c)
                           (dropWhile js_is_space (dropWhile (\<lambda>c. \<not> js_is_space c) (dropWhile js_is_space h))) \<and>
           tok \<noteq> [] \<and> (\<forall>c \<in> set tok. \<not> js_is_space c) \<and> (\<exists>a b. h = a @ tok @ b) \<and>
           jl_decode L tok = Some (p, jl_mac L JWT_SECRET p) \<and> seconds_of now < exp p \<and> ru = validate p)"
proof -
  obtain tok where t: "fromAuthHeaderAsBearerToken (Some h) = Some tok"
    using assms by (auto simp: jwt_auth_guard_def split: option.splits)
  with assms obtain p where v: "jwt_verify L JWT_SECRET False now tok = Inr p" and r: "ru = validate p"
    by (auto simp: jwt_auth_guard_def jwt_strategy_options_def split: sum.splits)
  from t have sc: "toLowerCase (takeWhile (\<lambda>c. \<not> js_is_space c) (dropWhile js_is_space h)) = ''bearer''"
    and tw: "tok = takeWhile (\<lambda>c. \<not> js_is_space c)
                     (dropWhile js_is_space (dropWhile (\<lambda>c. \<not> js_is_space c) (dropWhile js_is_space h)))"
    unfolding bearer_scheme by simp_all
  from bearer_token_shape [OF t] have sh: "tok \<noteq> [] \<and> (\<forall>c \<in> set tok. \<not> js_is_space c) \<and> (\<exists>a b. h = a @ tok @ b)" .
  have vd: "jl_decode L tok = Some (p, jl_mac L JWT_SECRET p) \<and> seconds_of now < exp p"
    using jwt_verify_Inr [OF v] by simp
  show ?thesis
    by (rule conjI [OF sc]) (use tw sh vd r in blast)
qed

theorem guard_accepts_only_bearer_fresh_witness:
  "jwt_auth_guard (demo_jwt_lib demo_payload) 0 (Some ''Bearer eyJ.demo.sig'') = Inr (validate demo_payload) \<and>
   (\<exists>tok p. jl_decode (demo_jwt_lib demo_payload) tok = Some (p, jl_mac (demo_jwt_lib demo_payload) JWT_SECRET p) \<and>
            seconds_of 0 < exp p)"
proof -
  have e: "fromAuthHeaderAsBearerToken (Some (''Bearer '' @ ''eyJ.demo.sig'')) = Some ''eyJ.demo.sig''"
    by (rule bearer_extract) (simp_all add: js_is_space_def)
  have v: "jwt_verify (demo_jwt_lib demo_payload) (secretOrKey jwt_strategy_options) (ignoreExpiration jwt_strategy_options) 0 ''eyJ.demo.sig'' = Inr demo_payload"
    by (simp add: jwt_verify_def demo_jwt_lib_def jwt_strategy_options_def seconds_of_def demo_payload_def)
  have h: "jwt_auth_guard (demo_jwt_lib demo_payload) 0 (Some ''Bearer eyJ.demo.sig'') = Inr (validate demo_payload)"
    using e v unfolding jwt_auth_guard_def by simp
  have "\<exists>tok p. jl_decode (demo_jwt_lib demo_payload) tok = Some (p, jl_mac (demo_jwt_lib demo_payload) JWT_SECRET p) \<and>
            seconds_of 0 < exp p"
    using guard_accepts_only_bearer_fresh [OF h] by (elim exE conjE) (intro exI conjI, assumption+)
  with h show ?thesis by (rule conjI)
qed


text \<open>
  Claim C31: A token issued by signAsync with the strategy's secret, read
  back by the JwtStrategy's verification, yields exactly the signed payload
  up to the second before exp = iat + expiresIn and a TokenExpired error
  from that second on, and validate turns the payload back into the claims'
  sub, email and nombre.
\<close>

theorem issue_verify_roundtrip:
  assumes codec: "jl_decode L (signAsync L opts now c) =
                    Some (sign_payload opts now c, jl_mac L (jm_secret opts) (sign_payload opts now c))"
    and sec: "jm_secret opts = secretOrKey jwt_strategy_options"
  shows "jwt_verify L (secretOrKey jwt_strategy_options) (ignoreExpiration jwt_strategy_options) now' (signAsync L opts now c) =
           (if seconds_of now' < seconds_of now + jm_expires_in opts then Inr (sign_payload opts now c)
            else Inl (TokenExpired (seconds_of now + jm_expires_in opts))) \<and>
         validate (sign_payload opts now c) = \<lparr>userId = sub c, ru_email = claim_email c, ru_nombre = claim_nombre c\<rparr>"
  using assms
  by (simp add: jwt_verify_def jwt_strategy_options_def sign_payload_def validate_def not_less)

theorem issue_verify_roundtrip_witness:
  "jwt_verify (demo_jwt_lib (sign_payload \<lparr>jm_secret = JWT_SECRET, jm_expires_in = 3600\<rparr> 0 (jwt_claims.truncate demo_payload)))
     (secretOrKey jwt_strategy_options) (ignoreExpiration jwt_strategy_options) 3599999
     (signAsync (demo_jwt_lib (sign_payload \<lparr>jm_secret = JWT_SECRET, jm_expires_in = 3600\<rparr> 0 (jwt_claims.truncate demo_payload)))
        \<lparr>jm_secret = JWT_SECRET, jm_expires_in = 3600\<rparr> 0 (jwt_claims.truncate demo_payload))
   = Inr (sign_payload \<lparr>jm_secret = JWT_SECRET, jm_expires_in = 3600\<rparr> 0 (jwt_claims.truncate demo_payload)) \<and>
   jwt_verify (demo_jwt_lib (sign_payload \<lparr>jm_secret = JWT_SECRET, jm_expires_in = 3600\<rparr> 0 (jwt_claims.truncate demo_payload)))
     (secretOrKey jwt_strategy_options) (ignoreExpiration jwt_strategy_options) 3600000
     (signAsync (demo_jwt_lib (sign_payload \<lparr>jm_secret = JWT_SECRET, jm_expires_in = 3600\<rparr> 0 (jwt_claims.truncate demo_payload)))
        \<lparr>jm_secret = JWT_SECRET, jm_expires_in = 3600\<rparr> 0 (jwt_claims.truncate demo_payload))
   = Inl (TokenExpired 3600)"
proof -
  let ?o = "\<lparr>jm_secret = JWT_SECRET, jm_expires_in = 3600\<rparr>" and ?c = "jwt_claims.truncate demo_payload"
  let ?L = "demo_jwt_lib (sign_payload ?o 0 ?c)"
  have c: "jl_decode ?L (signAsync ?L ?o 0 ?c) = Some (sign_payload ?o 0 ?c, jl_mac ?L (jm_secret ?o) (sign_payload ?o 0 ?c))"
    by (simp add: demo_jwt_lib_def signAsync_def)
  have s: "jm_secret ?o = secretOrKey jwt_strategy_options" by (simp add: jwt_strategy_options_def)
  show ?thesis
    using issue_verify_roundtrip [OF c s, of 3599999] issue_verify_roundtrip [OF c s, of 3600000]
    by (simp add: seconds_of_def)
qed

end
