(* ===== verification/Auth.thy ===== *)
theory Auth
  imports Users Hasher Jwt
begin

text \<open>
  \<open>AuthService\<close> (\<open>src/auth/auth.service.ts\<close>): registration, login and
  profile lookup, composed from the users store, the hasher and the token
  issuer. The collaborators injected by the constructor (the hasher package,
  the JWT library and the JWT module options) are the record
  \<open>auth_deps\<close>; the store is passed and returned explicitly.

  \<open>register\<close> suspends at \<open>await bcrypt.hash\<close> (line 36). Its code is
  therefore two atomic steps of the event loop: \<open>register_check\<close> (lines
  27 to 33: normalise, look up, throw on conflict) and
  \<open>register_complete\<close> (lines 36 to 49: hash, create, answer); \<open>register\<close>
  is their sequential composition, and the request model of
  \<open>Controller\<close> interleaves them. \<open>login\<close> reads the store once, before its
  first \<open>await\<close>, and changes nothing, so it is one function.

  The lemmas give every branch of the three methods (conflict, success,
  unknown e-mail, inactive account, wrong password), what is stored and
  returned on success, and the store invariants that \<open>register\<close> keeps.
\<close>

subsection \<open>DTOs, results and messages\<close>

text \<open>
  \<open>RegisterDto\<close> and \<open>LoginDto\<close> live in \<open>auth/dto/\<close>, which is not in the
  repository; \<open>register\<close> spreads a \<open>RegisterDto\<close> into \<open>create\<close>, so it has
  the fields of \<open>CreateUserDto\<close>.
\<close>

type_synonym register_dto = create_user_dto

record login_dto =
  login_email :: string
  login_password :: string

record register_result =
  reg_message :: string
  reg_user :: safe_user

record login_result =
  access_token :: string
  login_user :: safe_user

record 'sig auth_deps =
  ad_hasher :: hasher
  ad_jwt :: "'sig jwt_lib"
  ad_jwt_options :: jwt_module_options

definition msg_email_taken :: string where
  "msg_email_taken = ''El email ya est'' @ a_acute @ '' registrado''"

definition msg_invalid_credentials :: string where
  "msg_invalid_credentials = ''Credenciales inv'' @ a_acute @ ''lidas''"

definition msg_inactive :: string where
  "msg_inactive = ''Usuario inactivo''"

definition msg_registered :: string where
  "msg_registered = ''Usuario registrado correctamente''"

definition bcrypt_rounds :: nat where
  "bcrypt_rounds = 10"

subsection \<open>register\<close>

definition register_check :: "register_dto \<Rightarrow> users_state \<Rightarrow> http_error + string" where
  "register_check d s =
     (let mail = normalize_email (dto_email d)
      in case findByEmail mail s of
           Some _ \<Rightarrow> Inl (ConflictException msg_email_taken)
         | None \<Rightarrow> Inr mail)"

definition register_complete ::
    "hasher \<Rightarrow> string \<Rightarrow> timestamp \<Rightarrow> register_dto \<Rightarrow> string \<Rightarrow> users_state \<Rightarrow>
     register_result \<times> users_state" where
  "register_complete H salt now d mail s =
     (let hashedPassword = bc_hash H (dto_password d) bcrypt_rounds salt;
          (userCreated, s') = create now (d\<lparr>dto_email := mail, dto_password := hashedPassword\<rparr>) s
      in (\<lparr>reg_message = msg_registered, reg_user = userCreated\<rparr>, s'))"

definition register ::
    "'sig auth_deps \<Rightarrow> string \<Rightarrow> timestamp \<Rightarrow> register_dto \<Rightarrow> users_state \<Rightarrow>
     (http_error + register_result) \<times> users_state" where
  "register D salt now d s =
     (case register_check d s of
        Inl e \<Rightarrow> (Inl e, s)
      | Inr mail \<Rightarrow>
          (let (r, s') = register_complete (ad_hasher D) salt now d mail s in (Inr r, s')))"

subsection \<open>login\<close>

definition login_payload :: "user \<Rightarrow> jwt_claims" where
  "login_payload u =
     \<lparr>sub = user_id u, claim_email = email u, claim_nombre = nombre u, claim_username = username u\<rparr>"

definition login ::
    "'sig auth_deps \<Rightarrow> timestamp \<Rightarrow> login_dto \<Rightarrow> users_state \<Rightarrow> http_error + login_result" where
  "login D now d s =
     (let mail = normalize_email (login_email d)
      in case findByEmailWithPassword mail s of
           None \<Rightarrow> Inl (UnauthorizedException msg_invalid_credentials)
         | Some u \<Rightarrow>
             if isActive u = Some False then Inl (UnauthorizedException msg_inactive)
             else if \<not> bc_compare (ad_hasher D) (login_password d) (password u)
             then Inl (UnauthorizedException msg_invalid_credentials)
             else
               (let accessToken = signAsync (ad_jwt D) (ad_jwt_options D) now (login_payload u)
                in Inr \<lparr>access_token = accessToken, login_user = sanitize u\<rparr>))"

subsection \<open>getProfile\<close>

definition getProfile :: "nat \<Rightarrow> users_state \<Rightarrow> http_error + safe_user" where
  "getProfile uid s = findOne uid s"

subsection \<open>The user a successful registration stores\<close>

definition registered_user :: "hasher \<Rightarrow> string \<Rightarrow> timestamp \<Rightarrow> register_dto \<Rightarrow> nat \<Rightarrow> user" where
  "registered_user H salt now d i =
     new_user now (d\<lparr>dto_email := normalize_email (dto_email d),
                     dto_password := bc_hash H (dto_password d) bcrypt_rounds salt\<rparr>) i"

subsection \<open>Example data\<close>

text \<open>The registration and login of the scenario of the specification.\<close>

definition demo_deps :: "jwt_payload \<Rightarrow> (string \<times> jwt_payload) auth_deps" where
  "demo_deps p0 = \<lparr>ad_hasher = demo_hasher, ad_jwt = demo_jwt_lib p0,
                    ad_jwt_options = \<lparr>jm_secret = JWT_SECRET, jm_expires_in = 3600\<rparr>\<rparr>"

definition ana_dto :: register_dto where
  "ana_dto = \<lparr>dto_nombre = ''Ana'', dto_apellido = ''Diaz'', dto_username = ''anad'',
              dto_email = ''Ana@Test.com'', dto_password = ''secret1''\<rparr>"

definition ana_login :: "string \<Rightarrow> string \<Rightarrow> login_dto" where
  "ana_login e pw = \<lparr>login_email = e, login_password = pw\<rparr>"

text \<open>
  The data model's promise that a password hash is the only password
  representation ever stored: every stored password is some output of the
  hasher.
\<close>

definition is_digest :: "hasher \<Rightarrow> string \<Rightarrow> bool" where
  "is_digest H h \<longleftrightarrow> (\<exists>pw rounds salt. h = bc_hash H pw rounds salt)"

definition stored_digests :: "hasher \<Rightarrow> users_state \<Rightarrow> bool" where
  "stored_digests H st \<longleftrightarrow> (\<forall>u \<in> set (users st). is_digest H (password u))"


subsection \<open>Branches of register and login\<close>

lemma findByEmail_normalize [simp]: "findByEmail (normalize_email e) s = findByEmail e s"
  by (simp add: findByEmail_def)

lemma register_conflict:
  "findByEmail (dto_email d) s = Some u \<Longrightarrow>
     register D salt now d s = (Inl (ConflictException msg_email_taken), s)"
  by (simp add: register_def register_check_def)

lemma registered_user_simps [simp]:
  "user_id (registered_user H salt now d i) = i"
  "email (registered_user H salt now d i) = normalize_email (dto_email d)"
  "password (registered_user H salt now d i) = bc_hash H (dto_password d) bcrypt_rounds salt"
  "isActive (registered_user H salt now d i) = Some True"
  by (simp_all add: registered_user_def)

lemma register_fresh:
  assumes "findByEmail (dto_email d) s = None"
  shows "register D salt now d s =
     (Inr \<lparr>reg_message = msg_registered, reg_user = sanitize (registered_user (ad_hasher D) salt now d (idCounter s))\<rparr>,
      s\<lparr>users := users s @ [registered_user (ad_hasher D) salt now d (idCounter s)],
        idCounter := js_incr (idCounter s)\<rparr>)"
  using assms
  by (simp add: register_def register_check_def register_complete_def create_result registered_user_def Let_def)

lemma register_Inr_fresh:
  "fst (register D salt now d s) = Inr r \<Longrightarrow> findByEmail (dto_email d) s = None"
  by (cases "findByEmail (dto_email d) s") (auto simp: register_conflict)

lemma findByEmail_register_fresh:
  assumes "findByEmail (dto_email d) s = None"
  shows "findByEmail (dto_email d) (snd (register D salt now d s)) =
           Some (registered_user (ad_hasher D) salt now d (idCounter s))"
  using assms by (simp add: register_fresh findByEmail_def)

lemma login_unknown:
  "findByEmail (login_email d) s = None \<Longrightarrow>
     login D now d s = Inl (UnauthorizedException msg_invalid_credentials)"
  by (simp add: login_def findByEmailWithPassword_def)

lemma login_inactive:
  "findByEmail (login_email d) s = Some u \<Longrightarrow> isActive u = Some False \<Longrightarrow>
     login D now d s = Inl (UnauthorizedException msg_inactive)"
  by (simp add: login_def findByEmailWithPassword_def)

lemma login_wrong_password:
  "findByEmail (login_email d) s = Some u \<Longrightarrow> isActive u \<noteq> Some False \<Longrightarrow>
     \<not> bc_compare (ad_hasher D) (login_password d) (password u) \<Longrightarrow>
     login D now d s = Inl (UnauthorizedException msg_invalid_credentials)"
  by (simp add: login_def findByEmailWithPassword_def)

lemma login_ok:
  "findByEmail (login_email d) s = Some u \<Longrightarrow> isActive u \<noteq> Some False \<Longrightarrow>
     bc_compare (ad_hasher D) (login_password d) (password u) \<Longrightarrow>
     login D now d s = Inr \<lparr>access_token = signAsync (ad_jwt D) (ad_jwt_options D) now (login_payload u),
                            login_user = sanitize u\<rparr>"
  by (simp add: login_def findByEmailWithPassword_def)

lemma find_email_remove:
  assumes inv: "users_inv s" and f: "find (\<lambda>v. email v = m) (users s) = Some u"
  shows "find (\<lambda>v. email v = m) (users (snd (remove now (user_id u) s))) = Some (deactivate now u)"
proof -
  from f have u: "u \<in> set (users s)" by (simp add: find_SomeD)
  then obtain u' where f': "find (\<lambda>v. user_id v = user_id u) (users s) = Some u'"
    by (metis (mono_tags, lifting) find_None_iff not_Some_eq)
  then obtain ys zs where xs: "users s = ys @ u' # zs" and ys: "\<forall>y \<in> set ys. user_id y \<noteq> user_id u"
      and idu': "user_id u' = user_id u"
      and upd: "update_first (\<lambda>v. user_id v = user_id u) (deactivate now) (users s) = ys @ deactivate now u' # zs"
    using update_first_split [of "\<lambda>v. user_id v = user_id u" "users s" u' "deactivate now"] by blast
  from inv have "distinct (map user_id (users s))" by (simp add: users_inv_def strict_sorted_iff)
  then have "inj_on user_id (set (users s))" by (simp add: distinct_map)
  moreover from xs have "u' \<in> set (users s)" by simp
  ultimately have "u' = u" using u idu' by (meson inj_onD)
  with xs ys u have "u \<notin> set ys" by auto
  with f xs \<open>u' = u\<close> have "\<forall>y \<in> set ys. email y \<noteq> m"
    using find_prefix_miss [of "\<lambda>v. email v = m" ys u zs] by simp
  moreover from f have "email u = m" by (auto dest: find_SomeD)
  ultimately show ?thesis using f' upd \<open>u' = u\<close> by (simp add: remove_def find_append_hit)
qed

subsection \<open>Properties of the workflow\<close>

text \<open>
  Claim C2: Registering again with any case or surrounding-white-space
  variant of an e-mail that was just registered throws ConflictException('El
  email ya esta registrado') and leaves the store unchanged.
\<close>

theorem register_variant_conflict:
  assumes "findByEmail (dto_email d) s = None"
    and "\<forall>c \<in> set l. js_is_space c" and "\<forall>c \<in> set r. js_is_space c"
  shows "register D salt' now' (d'\<lparr>dto_email := l @ toUpperCase (dto_email d) @ r\<rparr>) (snd (register D salt now d s))
         = (Inl (ConflictException msg_email_taken), snd (register D salt now d s))"
proof -
  have "findByEmail (l @ toUpperCase (dto_email d) @ r) (snd (register D salt now d s))
        = findByEmail (dto_email d) (snd (register D salt now d s))"
    using assms(2,3) by (simp add: findByEmail_def normalize_email_variant)
  with assms(1) have "findByEmail (l @ toUpperCase (dto_email d) @ r) (snd (register D salt now d s))
        = Some (registered_user (ad_hasher D) salt now d (idCounter s))"
    by (simp add: findByEmail_register_fresh)
  then show ?thesis by (intro register_conflict) simp
qed

theorem register_variant_conflict_witness:
  "findByEmail (dto_email ana_dto) users_service_init = None \<and>
   register (demo_deps demo_payload) ''salt2'' 1 (ana_dto\<lparr>dto_email := '' '' @ toUpperCase (dto_email ana_dto) @ ''  ''\<rparr>)
     (snd (register (demo_deps demo_payload) ''salt1'' 0 ana_dto users_service_init))
   = (Inl (ConflictException msg_email_taken), snd (register (demo_deps demo_payload) ''salt1'' 0 ana_dto users_service_init))"
proof -
  have h: "findByEmail (dto_email ana_dto) users_service_init = None" "\<forall>c \<in> set '' ''. js_is_space c"
    "\<forall>c \<in> set ''  ''. js_is_space c"
    by (simp_all add: findByEmail_def users_service_init_def js_is_space_def)
  show ?thesis using h register_variant_conflict [OF h, of "demo_deps demo_payload" "''salt2''" 1 ana_dto "''salt1''" 0] by simp
qed

text \<open>
  Claim C8: A registration with a fresh e-mail returns the success message
  and the sanitised new user, and stores a user with the next id, the
  normalised e-mail, isActive true and as password the bcrypt digest of the
  plaintext.
\<close>

theorem register_stores_hash:
  assumes "findByEmail (dto_email d) s = None"
  shows "\<exists>u. fst (register D salt now d s) = Inr \<lparr>reg_message = msg_registered, reg_user = sanitize u\<rparr> \<and>
             findByEmail (dto_email d) (snd (register D salt now d s)) = Some u \<and>
             user_id u = idCounter s \<and> email u = normalize_email (dto_email d) \<and>
             password u = bc_hash (ad_hasher D) (dto_password d) bcrypt_rounds salt \<and> isActive u = Some True"
proof -
  let ?u = "registered_user (ad_hasher D) salt now d (idCounter s)"
  from assms have "fst (register D salt now d s) = Inr \<lparr>reg_message = msg_registered, reg_user = sanitize ?u\<rparr>"
    by (simp add: register_fresh)
  moreover from assms have "findByEmail (dto_email d) (snd (register D salt now d s)) = Some ?u"
    by (rule findByEmail_register_fresh)
  ultimately show ?thesis by (intro exI [of _ ?u]) simp
qed

theorem register_stores_hash_witness:
  "findByEmail (dto_email ana_dto) users_service_init = None \<and>
   (\<exists>u. fst (register (demo_deps demo_payload) ''salt1'' 0 ana_dto users_service_init) =
          Inr \<lparr>reg_message = msg_registered, reg_user = sanitize u\<rparr> \<and>
        findByEmail (dto_email ana_dto) (snd (register (demo_deps demo_payload) ''salt1'' 0 ana_dto users_service_init)) = Some u \<and>
        user_id u = idCounter users_service_init \<and> email u = normalize_email (dto_email ana_dto) \<and>
        password u = bc_hash (ad_hasher (demo_deps demo_payload)) (dto_password ana_dto) bcrypt_rounds ''salt1'' \<and> isActive u = Some True)"
proof -
  have h: "findByEmail (dto_email ana_dto) users_service_init = None"
    by (simp add: findByEmail_def users_service_init_def)
  show ?thesis using h register_stores_hash [OF h, of "demo_deps demo_payload" "''salt1''" 0] by blast
qed

text \<open>
  Claim C9: The result register returns does not depend on the plaintext
  password: changing only the password gives the same response.
\<close>

theorem register_response_hides_password:
  "fst (register D salt now d s) = fst (register D salt now (d\<lparr>dto_password := pw\<rparr>) s)"
proof (cases "findByEmail (dto_email d) s")
  case None
  then show ?thesis by (simp add: register_fresh sanitize_eq registered_user_def new_user_def)
next
  case (Some u)
  then show ?thesis by (simp add: register_conflict)
qed

text \<open>
  Claim C3: Login with an unknown e-mail and login with a known active
  e-mail but a wrong password fail with the identical
  UnauthorizedException('Credenciales invalidas').
\<close>

theorem login_non_enumeration:
  assumes "findByEmail (login_email d1) s1 = None"
    and "findByEmail (login_email d2) s2 = Some u" and "isActive u \<noteq> Some False"
    and "\<not> bc_compare (ad_hasher D) (login_password d2) (password u)"
  shows "login D now1 d1 s1 = login D now2 d2 s2"
  using assms by (simp add: login_unknown login_wrong_password)

text \<open>
  Claim C17: Login for an existing deactivated account fails with 'Usuario
  inactivo', a message different from the generic invalid-credentials one,
  regardless of the password.
\<close>

theorem login_inactive_leak:
  assumes "findByEmail (login_email d) s = Some u" and "isActive u = Some False"
  shows "login D now d s = Inl (UnauthorizedException msg_inactive) \<and>
         login D now d s \<noteq> Inl (UnauthorizedException msg_invalid_credentials)"
  using assms by (simp add: login_inactive msg_inactive_def msg_invalid_credentials_def)

text \<open>
  Claim C7: After remove (logical delete) of a user, login with that user's
  e-mail fails with UnauthorizedException('Usuario inactivo'), whatever the
  password.
\<close>

theorem deactivated_login_fails:
  assumes "users_inv s" and "findByEmail (login_email d) s = Some u"
  shows "login D now' d (snd (remove now (user_id u) s)) = Inl (UnauthorizedException msg_inactive)"
proof -
  from assms have "findByEmail (login_email d) (snd (remove now (user_id u) s)) = Some (deactivate now u)"
    by (simp add: findByEmail_def find_email_remove)
  then show ?thesis by (rule login_inactive) simp
qed

lemma ana_norm: "normalize_email ''Ana@Test.com'' = ''ana@test.com''"
  "normalize_email ''ANA@TEST.COM'' = ''ana@test.com''" "normalize_email ''bob@x'' = ''bob@x''"
  "normalize_email ''ana@test.com'' = ''ana@test.com''"
  by code_simp+

lemma ana_dto_simps [simp]: "dto_email ana_dto = ''Ana@Test.com''" "dto_password ana_dto = ''secret1''"
  by (simp_all add: ana_dto_def)

lemma ana_store:
  "snd (register (demo_deps p0) ''salt1'' 0 ana_dto users_service_init) =
     \<lparr>users = [registered_user demo_hasher ''salt1'' 0 ana_dto 1], idCounter = 2\<rparr>"
proof -
  have "findByEmail (dto_email ana_dto) users_service_init = None"
    by (simp add: findByEmail_def users_service_init_def)
  moreover have "js_incr 1 = 2" by (simp add: js_incr_def)
  ultimately show ?thesis by (simp add: register_fresh demo_deps_def users_service_init_def)
qed

lemma ana_find:
  "findByEmail ''ANA@TEST.COM'' (snd (register (demo_deps p0) ''salt1'' 0 ana_dto users_service_init))
     = Some (registered_user demo_hasher ''salt1'' 0 ana_dto 1)"
  "findByEmail ''bob@x'' (snd (register (demo_deps p0) ''salt1'' 0 ana_dto users_service_init)) = None"
  by (simp_all add: ana_store findByEmail_def ana_norm)

theorem login_non_enumeration_witness:
  "findByEmail (login_email (ana_login ''bob@x'' ''x'')) (snd (register (demo_deps demo_payload) ''salt1'' 0 ana_dto users_service_init)) = None \<and>
   findByEmail (login_email (ana_login ''ANA@TEST.COM'' ''wrong'')) (snd (register (demo_deps demo_payload) ''salt1'' 0 ana_dto users_service_init))
     = Some (registered_user demo_hasher ''salt1'' 0 ana_dto 1) \<and>
   isActive (registered_user demo_hasher ''salt1'' 0 ana_dto 1) \<noteq> Some False \<and>
   \<not> bc_compare (ad_hasher (demo_deps demo_payload)) (login_password (ana_login ''ANA@TEST.COM'' ''wrong''))
       (password (registered_user demo_hasher ''salt1'' 0 ana_dto 1)) \<and>
   login (demo_deps demo_payload) 5 (ana_login ''bob@x'' ''x'') (snd (register (demo_deps demo_payload) ''salt1'' 0 ana_dto users_service_init)) =
   login (demo_deps demo_payload) 7 (ana_login ''ANA@TEST.COM'' ''wrong'') (snd (register (demo_deps demo_payload) ''salt1'' 0 ana_dto users_service_init))"
proof -
  have h: "findByEmail (login_email (ana_login ''bob@x'' ''x'')) (snd (register (demo_deps demo_payload) ''salt1'' 0 ana_dto users_service_init)) = None"
    "findByEmail (login_email (ana_login ''ANA@TEST.COM'' ''wrong'')) (snd (register (demo_deps demo_payload) ''salt1'' 0 ana_dto users_service_init))
     = Some (registered_user demo_hasher ''salt1'' 0 ana_dto 1)"
    "isActive (registered_user demo_hasher ''salt1'' 0 ana_dto 1) \<noteq> Some False"
    "\<not> bc_compare (ad_hasher (demo_deps demo_payload)) (login_password (ana_login ''ANA@TEST.COM'' ''wrong''))
       (password (registered_user demo_hasher ''salt1'' 0 ana_dto 1))"
    by (simp_all only: ana_login_def login_dto.simps ana_find registered_user_simps)
       (simp_all add: demo_deps_def demo_hasher_def bcrypt_max_bytes_def bcrypt_rounds_def)
  show ?thesis using h login_non_enumeration [OF h, of 5 7] by simp
qed

theorem login_inactive_leak_witness:
  "findByEmail (login_email (ana_login ''ANA@TEST.COM'' ''secret1''))
      \<lparr>users = [deactivate 9 (registered_user demo_hasher ''salt1'' 0 ana_dto 1)], idCounter = 2\<rparr>
     = Some (deactivate 9 (registered_user demo_hasher ''salt1'' 0 ana_dto 1)) \<and>
   isActive (deactivate 9 (registered_user demo_hasher ''salt1'' 0 ana_dto 1)) = Some False \<and>
   login (demo_deps demo_payload) 10 (ana_login ''ANA@TEST.COM'' ''secret1'')
      \<lparr>users = [deactivate 9 (registered_user demo_hasher ''salt1'' 0 ana_dto 1)], idCounter = 2\<rparr>
     = Inl (UnauthorizedException msg_inactive)"
proof -
  have h: "findByEmail (login_email (ana_login ''ANA@TEST.COM'' ''secret1''))
      \<lparr>users = [deactivate 9 (registered_user demo_hasher ''salt1'' 0 ana_dto 1)], idCounter = 2\<rparr>
     = Some (deactivate 9 (registered_user demo_hasher ''salt1'' 0 ana_dto 1))"
    "isActive (deactivate 9 (registered_user demo_hasher ''salt1'' 0 ana_dto 1)) = Some False"
    by (simp_all add: ana_login_def findByEmail_def ana_norm)
  show ?thesis using h login_inactive_leak [OF h, of "demo_deps demo_payload" 10] by simp
qed

theorem deactivated_login_fails_witness:
  "users_inv (snd (register (demo_deps demo_payload) ''salt1'' 0 ana_dto users_service_init)) \<and>
   findByEmail (login_email (ana_login ''ANA@TEST.COM'' ''secret1'')) (snd (register (demo_deps demo_payload) ''salt1'' 0 ana_dto users_service_init))
     = Some (registered_user demo_hasher ''salt1'' 0 ana_dto 1) \<and>
   login (demo_deps demo_payload) 10 (ana_login ''ANA@TEST.COM'' ''secret1'')
     (snd (remove 9 (user_id (registered_user demo_hasher ''salt1'' 0 ana_dto 1))
        (snd (register (demo_deps demo_payload) ''salt1'' 0 ana_dto users_service_init))))
   = Inl (UnauthorizedException msg_inactive)"
proof -
  have h: "users_inv (snd (register (demo_deps demo_payload) ''salt1'' 0 ana_dto users_service_init))"
    "findByEmail (login_email (ana_login ''ANA@TEST.COM'' ''secret1'')) (snd (register (demo_deps demo_payload) ''salt1'' 0 ana_dto users_service_init))
     = Some (registered_user demo_hasher ''salt1'' 0 ana_dto 1)"
     apply (simp add: ana_store users_inv_def ana_norm)
    by (simp only: ana_login_def login_dto.simps ana_find)
  show ?thesis using h deactivated_login_fails [OF h, of "demo_deps demo_payload" 10 9] by simp
qed


text \<open>
  Claim C26: After a successful registration under a correct hasher, a login
  with the registered e-mail succeeds exactly when the given password agrees
  with the registered one on its first 72 bytes (bcrypt's limit), so even a
  password that passes the DTO's MaxLength(50) in UTF-16 units can be
  matched by a different one.
\<close>

theorem login_password_prefix:
  assumes "hasher_correct (ad_hasher D)" and "fst (register D salt now d s) = Inr r"
  shows "(\<exists>res. login D now' \<lparr>login_email = dto_email d, login_password = pw\<rparr> (snd (register D salt now d s)) = Inr res)
           \<longleftrightarrow> take bcrypt_max_bytes pw = take bcrypt_max_bytes (dto_password d)"
proof -
  let ?u = "registered_user (ad_hasher D) salt now d (idCounter s)"
  have f: "findByEmail (dto_email d) (snd (register D salt now d s)) = Some ?u"
    using findByEmail_register_fresh [OF register_Inr_fresh [OF assms(2)]] .
  from assms(1) have c: "bc_compare (ad_hasher D) pw (password ?u) \<longleftrightarrow>
      take bcrypt_max_bytes pw = take bcrypt_max_bytes (dto_password d)"
    by (simp add: hasher_correct_compare_iff)
  show ?thesis
  proof (cases "take bcrypt_max_bytes pw = take bcrypt_max_bytes (dto_password d)")
    case True
    with c f show ?thesis by (simp add: login_ok)
  next
    case False
    with c f show ?thesis by (simp add: login_wrong_password)
  qed
qed

theorem login_password_prefix_witness:
  "create_user_dto_valid (\<lambda>_. True) (ana_dto\<lparr>dto_password := concat (replicate 24 euro_sign) @ ''x''\<rparr>) \<and>
   (\<exists>res. login (demo_deps demo_payload) 5
      \<lparr>login_email = dto_email ana_dto, login_password = concat (replicate 24 euro_sign) @ ''y''\<rparr>
      (snd (register (demo_deps demo_payload) ''salt1'' 0 (ana_dto\<lparr>dto_password := concat (replicate 24 euro_sign) @ ''x''\<rparr>)
              users_service_init)) = Inr res)"
proof -
  let ?d = "ana_dto\<lparr>dto_password := concat (replicate 24 euro_sign) @ ''x''\<rparr>"
  have l: "length (concat (replicate 24 euro_sign)) = 72" "js_length (concat (replicate 24 euro_sign)) = 24"
    using js_length_euros [of 24] by simp_all
  have v: "create_user_dto_valid (\<lambda>_. True) ?d"
    using l by (simp add: create_user_dto_valid_def ana_dto_def js_length_def utf8_continuation_def utf8_lead4_def)
  have h1: "hasher_correct (ad_hasher (demo_deps demo_payload))"
    by (simp add: demo_deps_def demo_hasher_correct)
  have "findByEmail (dto_email ?d) users_service_init = None"
    by (simp add: findByEmail_def users_service_init_def)
  then have h2: "fst (register (demo_deps demo_payload) ''salt1'' 0 ?d users_service_init) =
      Inr \<lparr>reg_message = msg_registered, reg_user = sanitize (registered_user demo_hasher ''salt1'' 0 ?d 1)\<rparr>"
    by (simp add: register_fresh demo_deps_def users_service_init_def)
  have t: "take bcrypt_max_bytes (concat (replicate 24 euro_sign) @ ''y'') =
           take bcrypt_max_bytes (dto_password ?d)"
    using l by (simp add: bcrypt_max_bytes_def)
  have "dto_email ?d = dto_email ana_dto" by simp
  with login_password_prefix [OF h1 h2, of 5 "concat (replicate 24 euro_sign) @ ''y''"] t v show ?thesis
    by simp
qed


end
