(* ===== verification/Controller.thy ===== *)
theory Controller
  imports Auth
begin

text \<open>
  \<open>AuthController\<close> (\<open>src/auth/auth.controller.ts\<close>): the four routes, two
  of them behind \<open>@UseGuards(JwtAuthGuard)\<close>, and the service's state as it
  evolves under a stream of requests. \<open>handle\<close> dispatches one request; a
  guarded handler runs only on the identity the guard produced
  (\<open>guarded\<close>). Two request models share the store: \<open>seq_reach\<close> runs every
  registration atomically, \<open>app_step\<close>/\<open>app_reach\<close> splits it at its
  \<open>await\<close> as the Node.js event loop does, so that other requests run
  between the e-mail check and the insertion and the hashes resolve in any
  order. The lemmas show that both guarded routes answer 401 to a request
  without a Bearer header, that the guarded routes ignore the store, that
  atomic registration keeps e-mails unique, and that the interleaved model
  reaches a store with a duplicate e-mail while keeping ids distinct.
\<close>

subsection \<open>Routes\<close>

datatype request =
    PostRegister register_dto
  | PostLogin login_dto
  | GetProfileRoute "string option" \<comment> \<open>the \<open>Authorization\<close> header\<close>
  | GetProtected "string option"

datatype response =
    RegisterResponse register_result
  | LoginResponse login_result
  | ProfileResponse string req_user \<comment> \<open>\<open>{message, user: req.user}\<close>\<close>
  | ProtectedResponse string timestamp nat \<comment> \<open>\<open>{message, timestamp, userId}\<close>\<close>

definition msg_profile :: string where
  "msg_profile = ''Perfil obtenido exitosamente''"

definition getProfile_handler :: "req_user \<Rightarrow> response" where
  "getProfile_handler u = ProfileResponse msg_profile u"

text \<open>\<open>new Date().toISOString()\<close> is represented by the time it renders.\<close>

definition protectedRoute_handler :: "timestamp \<Rightarrow> req_user \<Rightarrow> response" where
  "protectedRoute_handler now u =
     ProtectedResponse (''Hola '' @ ru_nombre u @ ''. Esta es una ruta protegida.'') now (userId u)"

text \<open>\<open>@UseGuards(JwtAuthGuard)\<close>: the handler runs on \<open>req.user\<close> only when the guard succeeds.\<close>

definition guarded ::
    "'sig jwt_lib \<Rightarrow> timestamp \<Rightarrow> string option \<Rightarrow> (req_user \<Rightarrow> response) \<Rightarrow> http_error + response" where
  "guarded L now hdr h =
     (case jwt_auth_guard L now hdr of
        Inl e \<Rightarrow> Inl e
      | Inr u \<Rightarrow> Inr (h u))"

definition handle ::
    "'sig auth_deps \<Rightarrow> string \<Rightarrow> timestamp \<Rightarrow> request \<Rightarrow> users_state \<Rightarrow>
     (http_error + response) \<times> users_state" where
  "handle D salt now req s =
     (case req of
        PostRegister d \<Rightarrow> (case register D salt now d s of (r, s') \<Rightarrow> (map_sum id RegisterResponse r, s'))
      | PostLogin d \<Rightarrow> (map_sum id LoginResponse (login D now d s), s)
      | GetProfileRoute hdr \<Rightarrow> (guarded (ad_jwt D) now hdr getProfile_handler, s)
      | GetProtected hdr \<Rightarrow> (guarded (ad_jwt D) now hdr (protectedRoute_handler now), s))"

subsection \<open>Registrations in flight\<close>

text \<open>
  The application state: the store and the registrations suspended at
  \<open>await bcrypt.hash\<close>, each with its DTO and the normalised address it
  checked.
\<close>

record app_state =
  store :: users_state
  pending :: "(register_dto \<times> string) list"

definition app_init :: app_state where
  "app_init = \<lparr>store = users_service_init, pending = []\<rparr>"

definition remove_nth :: "nat \<Rightarrow> 'a list \<Rightarrow> 'a list" where
  "remove_nth i xs = take i xs @ drop (Suc i) xs"

text \<open>
  One event-loop turn: a registration runs up to its \<open>await\<close> (a rejected
  one answers 409 and changes nothing), or one pending hash resolves and
  its registration completes. Logins and guarded reads do not change the
  state and are left out.
\<close>

inductive app_step :: "hasher \<Rightarrow> app_state \<Rightarrow> app_state \<Rightarrow> bool" for H where
  reg_start: "register_check d (store s) = Inr mail \<Longrightarrow>
     app_step H s (s\<lparr>pending := pending s @ [(d, mail)]\<rparr>)"
| reg_finish: "i < length (pending s) \<Longrightarrow> pending s ! i = (d, mail) \<Longrightarrow>
     app_step H s \<lparr>store = snd (register_complete H salt now d mail (store s)),
                   pending = remove_nth i (pending s)\<rparr>"

inductive app_reach :: "hasher \<Rightarrow> app_state \<Rightarrow> bool" for H where
  app_start: "app_reach H app_init"
| app_next: "app_reach H s \<Longrightarrow> app_step H s t \<Longrightarrow> app_reach H t"

text \<open>The same requests with every registration run to completion before the next event.\<close>

inductive seq_reach :: "'sig auth_deps \<Rightarrow> users_state \<Rightarrow> bool" for D where
  seq_start: "seq_reach D users_service_init"
| seq_next: "seq_reach D s \<Longrightarrow> seq_reach D (snd (register D salt now d s))"

text \<open>The store after two registrations of one address whose hashes resolve after both checks.\<close>

definition race_state :: "hasher \<Rightarrow> app_state" where
  "race_state H =
     \<lparr>store = snd (register_complete H ''s2'' 0 ana_dto (normalize_email (dto_email ana_dto))
                (snd (register_complete H ''s1'' 0 ana_dto (normalize_email (dto_email ana_dto)) users_service_init))),
      pending = []\<rparr>"

subsection \<open>Properties of the routes and of the request models\<close>

inductive_cases app_step_cases: "app_step H s t"

lemma register_cases:
  "(findByEmail (dto_email d) s \<noteq> None \<and> register D salt now d s = (Inl (ConflictException msg_email_taken), s)) \<or>
   (findByEmail (dto_email d) s = None \<and>
    snd (register D salt now d s) = snd (register_complete (ad_hasher D) salt now d (normalize_email (dto_email d)) s) \<and>
    register_check d s = Inr (normalize_email (dto_email d)))"
  by (cases "findByEmail (dto_email d) s")
     (auto simp: register_def register_check_def split: prod.splits)

lemma register_complete_store:
  "snd (register_complete H salt now d mail s) =
     s\<lparr>users := users s @ [new_user now (d\<lparr>dto_email := mail, dto_password := bc_hash H (dto_password d) bcrypt_rounds salt\<rparr>) (idCounter s)],
       idCounter := js_incr (idCounter s)\<rparr>"
  by (simp add: register_complete_def create_result Let_def split: prod.splits)

lemma race_trace:
  assumes r: "app_reach H \<lparr>store = st, pending = []\<rparr>"
    and c1: "register_check d1 st = Inr m1" and c2: "register_check d2 st = Inr m2"
  shows "app_reach H \<lparr>store = snd (register_complete H salt2 now2 d2 m2 (snd (register_complete H salt1 now1 d1 m1 st))),
                       pending = []\<rparr>"
proof -
  let ?s0 = "\<lparr>store = st, pending = []\<rparr>"
  let ?s1 = "\<lparr>store = st, pending = [(d1, m1)]\<rparr>"
  let ?s2 = "\<lparr>store = st, pending = [(d1, m1), (d2, m2)]\<rparr>"
  let ?st3 = "snd (register_complete H salt1 now1 d1 m1 st)"
  let ?s3 = "\<lparr>store = ?st3, pending = [(d2, m2)]\<rparr>"
  have "app_step H ?s0 ?s1" using app_step.reg_start [of d1 ?s0 m1 H] c1 by simp
  with r have r1: "app_reach H ?s1" by (rule app_reach.app_next)
  have "app_step H ?s1 ?s2" using app_step.reg_start [of d2 ?s1 m2 H] c2 by simp
  with r1 have r2: "app_reach H ?s2" by (rule app_reach.app_next)
  have "app_step H ?s2 ?s3"
    using app_step.reg_finish [of 0 ?s2 d1 m1 H salt1 now1] by (simp add: remove_nth_def)
  with r2 have r3: "app_reach H ?s3" by (rule app_reach.app_next)
  have "app_step H ?s3 \<lparr>store = snd (register_complete H salt2 now2 d2 m2 ?st3), pending = []\<rparr>"
    using app_step.reg_finish [of 0 ?s3 d2 m2 H salt2 now2] by (simp add: remove_nth_def)
  with r3 show ?thesis by (rule app_reach.app_next)
qed

lemma app_reach_init: "app_reach H \<lparr>store = users_service_init, pending = []\<rparr>"
  using app_reach.app_start by (simp add: app_init_def)

lemma race_state_reach: "app_reach H (race_state H)"
proof -
  have chk: "register_check ana_dto users_service_init = Inr (normalize_email (dto_email ana_dto))"
    by (simp add: register_check_def findByEmail_def users_service_init_def)
  show ?thesis unfolding race_state_def using race_trace [OF app_reach_init chk chk] by blast
qed

lemma race_state_users:
  "map user_id (users (store (race_state H))) = [1, 2] \<and> idCounter (store (race_state H)) = 3 \<and>
   map email (users (store (race_state H))) = [''ana@test.com'', ''ana@test.com'']"
proof -
  have "js_incr 1 = 2" "js_incr 2 = 3" by (simp_all add: js_incr_def)
  then show ?thesis
    by (simp add: race_state_def register_complete_store users_service_init_def ana_norm)
qed

lemma register_complete_create:
  "snd (register_complete H salt now d mail s) =
     snd (create now (d\<lparr>dto_email := mail, dto_password := bc_hash H (dto_password d) bcrypt_rounds salt\<rparr>) s)"
  by (simp add: register_complete_def Let_def split: prod.splits)

lemma app_reach_inv:
  "app_reach H s \<Longrightarrow> users_inv (store s) \<or> idCounter (store s) = 2 ^ 53"
proof (induction rule: app_reach.induct)
  case app_start
  then show ?case by (simp add: app_init_def users_inv_init)
next
  case (app_next s t)
  from app_next.hyps(2) show ?case
  proof (cases rule: app_step.cases)
    case (reg_start d mail)
    with app_next.IH show ?thesis by simp
  next
    case (reg_finish i d mail salt now)
    have "idCounter (store s) < 2 ^ 53 \<or> idCounter (store s) = 2 ^ 53"
      using app_next.IH by (auto simp: users_inv_def)
    then show ?thesis
    proof
      assume "idCounter (store s) < 2 ^ 53"
      with app_next.IH have "users_inv (store s)" by auto
      with \<open>idCounter (store s) < 2 ^ 53\<close> reg_finish show ?thesis
        by (simp add: register_complete_create create_users_inv)
    next
      assume "idCounter (store s) = 2 ^ 53"
      with reg_finish show ?thesis by (simp add: register_complete_create create_counter_saturated)
    qed
  qed
qed

text \<open>
  Claim C6: GET /auth/profile and GET /auth/protected answer 401
  Unauthorized and leave the state unchanged, whatever the dependencies,
  clock and store, when the request has no Authorization header or the
  header's first word is not 'bearer' in any letter case.
\<close>

theorem guarded_routes_need_bearer:
  assumes "hdr = None \<or> (\<exists>h. hdr = Some h \<and>
             toLowerCase (takeWhile (\<lambda>c. \<not> js_is_space c) (dropWhile js_is_space h)) \<noteq> ''bearer'')"
  shows "handle D salt now (GetProfileRoute hdr) s = (Inl (UnauthorizedException ''Unauthorized''), s) \<and>
         handle D salt now (GetProtected hdr) s = (Inl (UnauthorizedException ''Unauthorized''), s)"
proof -
  have "fromAuthHeaderAsBearerToken hdr = None"
    using assms bearer_scheme_None by (auto simp: fromAuthHeaderAsBearerToken_def)
  then show ?thesis
    by (simp add: handle_def guarded_def jwt_auth_guard_def unauthorized_def)
qed

theorem guarded_routes_need_bearer_witness:
  "handle (demo_deps demo_payload) ''s'' 0 (GetProfileRoute (Some ''Basic YWxpY2U6cHc='')) users_service_init
     = (Inl (UnauthorizedException ''Unauthorized''), users_service_init) \<and>
   handle (demo_deps demo_payload) ''s'' 0 (GetProtected (Some ''Basic YWxpY2U6cHc='')) users_service_init
     = (Inl (UnauthorizedException ''Unauthorized''), users_service_init)"
proof -
  have "toLowerCase (takeWhile (\<lambda>c. \<not> js_is_space c) (dropWhile js_is_space ''Basic YWxpY2U6cHc=''))
          \<noteq> ''bearer''"
    by code_simp
  then show ?thesis
    by (intro guarded_routes_need_bearer) simp
qed

text \<open>
  Claim C18: The answers of the guarded routes do not depend on the user
  store, so deactivating or changing a user does not revoke or update an
  issued token.
\<close>

theorem guarded_routes_ignore_store:
  "fst (handle D salt now (GetProtected hdr) s) = fst (handle D salt now (GetProtected hdr) s') \<and>
   fst (handle D salt now (GetProfileRoute hdr) s) = fst (handle D salt now (GetProfileRoute hdr) s')"
  by (simp add: handle_def)

lemma seq_step_emails:
  assumes "emails_unique s" and "\<forall>u \<in> set (users s). normalize_email (email u) = email u"
  shows "emails_unique (snd (register D salt now d s)) \<and>
         (\<forall>u \<in> set (users (snd (register D salt now d s))). normalize_email (email u) = email u)"
  using register_cases [of d s D salt now]
proof
  assume "findByEmail (dto_email d) s \<noteq> None \<and> register D salt now d s = (Inl (ConflictException msg_email_taken), s)"
  with assms show ?thesis by simp
next
  assume c: "findByEmail (dto_email d) s = None \<and>
    snd (register D salt now d s) = snd (register_complete (ad_hasher D) salt now d (normalize_email (dto_email d)) s) \<and>
    register_check d s = Inr (normalize_email (dto_email d))"
  then have "\<forall>u \<in> set (users s). email u \<noteq> normalize_email (dto_email d)"
    by (auto simp: findByEmail_def find_None_iff)
  with c assms show ?thesis
    by (auto simp: register_complete_store emails_unique_def)
qed

text \<open>
  Claim C10: When every registration runs to completion before the next
  request, all stored e-mails are pairwise distinct and in normal form in
  every reachable store.
\<close>

theorem seq_reach_emails_unique:
  "seq_reach D s \<Longrightarrow> emails_unique s \<and> (\<forall>u \<in> set (users s). normalize_email (email u) = email u)"
proof (induction rule: seq_reach.induct)
  case seq_start
  then show ?case by (simp add: emails_unique_def users_service_init_def)
next
  case (seq_next s salt now d)
  then show ?case using seq_step_emails [of s D salt now d] by blast
qed

theorem seq_reach_emails_unique_witness:
  "seq_reach (demo_deps demo_payload) users_service_init \<and> emails_unique users_service_init"
  using seq_reach_emails_unique [OF seq_reach.seq_start [of "demo_deps demo_payload"]] seq_reach.seq_start [of "demo_deps demo_payload"] by simp

text \<open>
  Claim C11: With registrations interleaved at await bcrypt.hash, two
  registrations of the same address both pass the uniqueness check and a
  reachable store holds the address twice.
\<close>

theorem register_race_duplicate:
  "\<exists>s. app_reach H s \<and> \<not> emails_unique (store s)"
proof -
  have "\<not> emails_unique (store (race_state H))"
    using race_state_users [of H] by (simp add: emails_unique_def)
  with race_state_reach show ?thesis by blast
qed

text \<open>
  Claim C19: After two interleaved registrations of one address with
  different passwords, both accounts are stored, and logging in with the
  second account's own password fails with the generic 401, because
  findByEmail always returns the first account.
\<close>

theorem register_race_locks_out:
  "\<exists>s. app_reach demo_hasher s \<and>
       map email (users (store s)) = [''ana@test.com'', ''ana@test.com''] \<and>
       map password (users (store s)) = [bc_hash demo_hasher ''secret1'' bcrypt_rounds ''s1'', bc_hash demo_hasher ''secret2'' bcrypt_rounds ''s2''] \<and>
       login (demo_deps demo_payload) 5 \<lparr>login_email = ''ana@test.com'', login_password = ''secret2''\<rparr> (store s)
         = Inl (UnauthorizedException msg_invalid_credentials)"
proof -
  let ?d1 = "ana_dto" and ?d2 = "ana_dto\<lparr>dto_password := ''secret2''\<rparr>"
  let ?m = "''ana@test.com''"
  have c1: "register_check ?d1 users_service_init = Inr ?m" and c2: "register_check ?d2 users_service_init = Inr ?m"
    by (simp_all add: register_check_def findByEmail_def users_service_init_def ana_norm)
  let ?st = "snd (register_complete demo_hasher ''s2'' 0 ?d2 ?m (snd (register_complete demo_hasher ''s1'' 0 ?d1 ?m users_service_init)))"
  have r: "app_reach demo_hasher \<lparr>store = ?st, pending = []\<rparr>"
    using race_trace [OF app_reach_init c1 c2] by blast
  have u: "users ?st = [new_user 0 (?d1\<lparr>dto_email := ?m, dto_password := bc_hash demo_hasher ''secret1'' bcrypt_rounds ''s1''\<rparr>) 1,
                        new_user 0 (?d2\<lparr>dto_email := ?m, dto_password := bc_hash demo_hasher ''secret2'' bcrypt_rounds ''s2''\<rparr>) (js_incr 1)]"
    by (simp add: register_complete_store users_service_init_def)
  let ?u1 = "new_user 0 (?d1\<lparr>dto_email := ?m, dto_password := bc_hash demo_hasher ''secret1'' bcrypt_rounds ''s1''\<rparr>) 1"
  have f: "findByEmail ?m ?st = Some ?u1"
    by (simp add: u findByEmail_def ana_norm)
  have a: "isActive ?u1 \<noteq> Some False" and p: "password ?u1 = bc_hash demo_hasher ''secret1'' bcrypt_rounds ''s1''"
    by (simp_all add: new_user_def)
  have "login (demo_deps demo_payload) 5 \<lparr>login_email = ?m, login_password = ''secret2''\<rparr> ?st
         = Inl (UnauthorizedException msg_invalid_credentials)"
    using f a p by (intro login_wrong_password [of _ _ ?u1])
       (simp_all add: demo_deps_def demo_hasher_def bcrypt_max_bytes_def)
  with r u show ?thesis by (intro exI [of _ "\<lparr>store = ?st, pending = []\<rparr>"]) (simp add: ana_norm)
qed

text \<open>
  Claim C25: Even with registrations interleaved at await bcrypt.hash, every
  reachable store whose id counter is below 2^53 satisfies the store
  invariant, so user ids stay pairwise distinct; the race duplicates
  e-mails, not ids.
\<close>

theorem app_reach_ids_unique:
  assumes "app_reach H s" and "idCounter (store s) < 2 ^ 53"
  shows "users_inv (store s) \<and> distinct (map user_id (users (store s)))"
proof -
  from app_reach_inv [OF assms(1)] assms(2) have "users_inv (store s)" by auto
  then show ?thesis by (simp add: users_inv_distinct_ids)
qed

theorem app_reach_ids_unique_witness:
  "app_reach demo_hasher (race_state demo_hasher) \<and> idCounter (store (race_state demo_hasher)) < 2 ^ 53 \<and>
   distinct (map user_id (users (store (race_state demo_hasher)))) \<and> \<not> emails_unique (store (race_state demo_hasher))"
proof -
  have h: "app_reach demo_hasher (race_state demo_hasher)" "idCounter (store (race_state demo_hasher)) < 2 ^ 53"
    by (simp_all add: race_state_reach race_state_users)
  have "\<not> emails_unique (store (race_state demo_hasher))"
    using race_state_users [of demo_hasher] by (simp add: emails_unique_def)
  then show ?thesis using h app_reach_ids_unique [OF h] by simp
qed


lemma register_Inl: "fst (register D salt now d s) = Inl e \<Longrightarrow> e = ConflictException msg_email_taken"
  by (auto simp: register_def register_check_def Let_def split: option.splits sum.splits prod.splits)

lemma login_Inl: "login D now d s = Inl e \<Longrightarrow> \<exists>m. e = UnauthorizedException m"
  by (auto simp: login_def Let_def split: option.splits if_splits)

lemma guarded_Inl: "guarded L now hdr h = Inl e \<Longrightarrow> e = unauthorized"
  by (auto simp: guarded_def jwt_auth_guard_def split: sum.splits option.splits)

text \<open>
  Claim C30: Every failure of a controller route has the status of the
  spec's taxonomy: POST /auth/register fails only with 409, every other
  route only with 401; no route ever answers 404.
\<close>

theorem route_error_status:
  assumes "fst (handle D salt now req s) = Inl e"
  shows "http_status e = (case req of PostRegister _ \<Rightarrow> 409 | _ \<Rightarrow> 401)"
proof (cases req)
  case (PostRegister d)
  with assms have "fst (register D salt now d s) = Inl e"
    by (cases "register D salt now d s") (auto simp: handle_def map_sum_def split: sum.splits)
  with PostRegister show ?thesis by (auto dest: register_Inl)
next
  case (PostLogin d)
  with assms have "login D now d s = Inl e"
    by (auto simp: handle_def map_sum_def split: sum.splits)
  with PostLogin show ?thesis by (auto dest: login_Inl)
next
  case (GetProfileRoute hdr)
  with assms show ?thesis by (auto simp: handle_def unauthorized_def dest: guarded_Inl)
next
  case (GetProtected hdr)
  with assms show ?thesis by (auto simp: handle_def unauthorized_def dest: guarded_Inl)
qed

theorem route_error_status_witness:
  "fst (handle (demo_deps demo_payload) ''s'' 0 (PostLogin \<lparr>login_email = ''bob@x'', login_password = ''pw''\<rparr>) users_service_init)
     = Inl (UnauthorizedException msg_invalid_credentials) \<and>
   http_status (UnauthorizedException msg_invalid_credentials) = 401"
proof -
  have h: "fst (handle (demo_deps demo_payload) ''s'' 0 (PostLogin \<lparr>login_email = ''bob@x'', login_password = ''pw''\<rparr>) users_service_init)
     = Inl (UnauthorizedException msg_invalid_credentials)"
    by (simp add: handle_def login_unknown findByEmail_def users_service_init_def)
  show ?thesis using route_error_status [OF h] h by simp
qed

end
