(* ===== verification/EventLoop.thy ===== *)
theory EventLoop
  imports Controller
begin

text \<open>
  The service under the Node.js event loop, with every suspension point of
  \<open>AuthService\<close>: \<open>register\<close> awaits \<open>bcrypt.hash\<close>, \<open>login\<close> awaits
  \<open>bcrypt.compare\<close> and then \<open>jwtService.signAsync\<close>
  (\<open>src/auth/auth.service.ts\<close>). Each request runs synchronously up to its
  next \<open>await\<close> (an \<open>arrival\<close>); each resolved promise resumes one
  suspended request (a \<open>completion\<close>). \<open>login\<close> holds the user object it
  found across both awaits and reads its fields after them; since the
  service's array only grows, the object is named by its index and every
  read after an await goes to the current element. \<open>update\<close> and
  \<open>remove\<close> of \<open>UsersService\<close> may run in between. The lemmas show that
  a login suspended in \<open>bcrypt.compare\<close> completes with a token for an
  account deactivated meanwhile, and that every turn keeps the stored
  passwords outputs of the hasher except an \<open>update\<close> that carries a
  password.
\<close>

subsection \<open>State of the event loop\<close>

record loop_state =
  lstore :: users_state
  regs :: "(register_dto \<times> string) list"
  logins :: "(login_dto \<times> nat \<times> string) list"
  signs :: "(string \<times> nat) list"
  login_out :: "(http_error + login_result) list"

definition loop_init :: loop_state where
  "loop_init = \<lparr>lstore = users_service_init, regs = [], logins = [], signs = [], login_out = []\<rparr>"

definition user_ref_by_email :: "string \<Rightarrow> users_state \<Rightarrow> nat option" where
  "user_ref_by_email e s = find_idx (\<lambda>u. email u = normalize_email e) (users s)"

subsection \<open>register, split at its await\<close>

definition reg_begin :: "register_dto \<Rightarrow> loop_state \<Rightarrow> loop_state" where
  "reg_begin d s =
     (case register_check d (lstore s) of
        Inl _ \<Rightarrow> s
      | Inr mail \<Rightarrow> s\<lparr>regs := regs s @ [(d, mail)]\<rparr>)"

definition reg_resume :: "'sig auth_deps \<Rightarrow> string \<Rightarrow> timestamp \<Rightarrow> nat \<Rightarrow> loop_state \<Rightarrow> loop_state" where
  "reg_resume D salt now i s =
     (case regs s ! i of (d, mail) \<Rightarrow>
        s\<lparr>lstore := snd (register_complete (ad_hasher D) salt now d mail (lstore s)),
          regs := remove_nth i (regs s)\<rparr>)"

subsection \<open>login, split at its two awaits\<close>

definition login_begin :: "login_dto \<Rightarrow> loop_state \<Rightarrow> loop_state" where
  "login_begin d s =
     (let mail = normalize_email (login_email d)
      in case user_ref_by_email mail (lstore s) of
           None \<Rightarrow> s\<lparr>login_out := login_out s @ [Inl (UnauthorizedException msg_invalid_credentials)]\<rparr>
         | Some k \<Rightarrow>
             (let u = users (lstore s) ! k
              in if isActive u = Some False
                 then s\<lparr>login_out := login_out s @ [Inl (UnauthorizedException msg_inactive)]\<rparr>
                 else s\<lparr>logins := logins s @ [(d, k, password u)]\<rparr>))"

definition login_compared :: "'sig auth_deps \<Rightarrow> timestamp \<Rightarrow> nat \<Rightarrow> loop_state \<Rightarrow> loop_state" where
  "login_compared D now i s =
     (case logins s ! i of (d, k, h) \<Rightarrow>
        if \<not> bc_compare (ad_hasher D) (login_password d) h
        then s\<lparr>logins := remove_nth i (logins s),
               login_out := login_out s @ [Inl (UnauthorizedException msg_invalid_credentials)]\<rparr>
        else s\<lparr>logins := remove_nth i (logins s),
               signs := signs s @ [(signAsync (ad_jwt D) (ad_jwt_options D) now
                                      (login_payload (users (lstore s) ! k)), k)]\<rparr>)"

definition login_signed :: "nat \<Rightarrow> loop_state \<Rightarrow> loop_state" where
  "login_signed i s =
     (case signs s ! i of (tok, k) \<Rightarrow>
        s\<lparr>signs := remove_nth i (signs s),
          login_out := login_out s @ [Inr \<lparr>access_token = tok, login_user = sanitize (users (lstore s) ! k)\<rparr>]\<rparr>)"

subsection \<open>Calls of the users module\<close>

text \<open>
  \<open>update\<close> and \<open>remove\<close> of \<open>UsersService\<close>, called by the users module's
  controller (not in the repository); they run synchronously.
\<close>

definition users_module_op :: "store_op \<Rightarrow> bool" where
  "users_module_op op = (case op of OpCreate _ _ \<Rightarrow> False | _ \<Rightarrow> True)"

definition store_call :: "store_op \<Rightarrow> loop_state \<Rightarrow> loop_state" where
  "store_call op s = s\<lparr>lstore := store_step (lstore s) op\<rparr>"

text \<open>A store call that sets a password (\<open>user.password = updateUserDto.password\<close>).\<close>

definition carries_password :: "store_op \<Rightarrow> bool" where
  "carries_password op = (case op of OpUpdate _ _ d \<Rightarrow> upd_password d \<noteq> None | _ \<Rightarrow> False)"

subsection \<open>Turns of the event loop\<close>

inductive arrival :: "'sig auth_deps \<Rightarrow> loop_state \<Rightarrow> loop_state \<Rightarrow> bool" for D where
  arr_register: "arrival D s (reg_begin d s)"
| arr_login: "arrival D s (login_begin d s)"
| arr_store: "users_module_op op \<Longrightarrow> arrival D s (store_call op s)"

inductive completion :: "'sig auth_deps \<Rightarrow> loop_state \<Rightarrow> loop_state \<Rightarrow> bool" for D where
  hash_done: "i < length (regs s) \<Longrightarrow> completion D s (reg_resume D salt now i s)"
| compare_done: "i < length (logins s) \<Longrightarrow> completion D s (login_compared D now i s)"
| sign_done: "i < length (signs s) \<Longrightarrow> completion D s (login_signed i s)"

inductive loop_step :: "'sig auth_deps \<Rightarrow> loop_state \<Rightarrow> loop_state \<Rightarrow> bool" for D where
  step_arrival: "arrival D s t \<Longrightarrow> loop_step D s t"
| step_completion: "completion D s t \<Longrightarrow> loop_step D s t"

inductive loop_reach :: "'sig auth_deps \<Rightarrow> loop_state \<Rightarrow> bool" for D where
  loop_start: "loop_reach D loop_init"
| loop_next: "loop_reach D s \<Longrightarrow> loop_step D s t \<Longrightarrow> loop_reach D t"

text \<open>A login that passes the active check, then the account is removed before the password comparison resolves.\<close>

definition inactive_race :: "'sig auth_deps \<Rightarrow> loop_state" where
  "inactive_race D =
     login_signed 0 (login_compared D 10 0 (store_call (OpRemove 9 1)
       (login_begin (ana_login ''ana@test.com'' ''secret1'')
         (reg_resume D ''salt1'' 0 0 (reg_begin ana_dto loop_init)))))"

abbreviation race_login :: login_dto where
  "race_login \<equiv> ana_login ''ana@test.com'' ''secret1''"

subsection \<open>The race between login and deactivation\<close>

lemma loop_reach_arrival: "loop_reach D s \<Longrightarrow> arrival D s t \<Longrightarrow> loop_reach D t"
  by (blast intro: loop_reach.loop_next loop_step.step_arrival)

lemma loop_reach_completion: "loop_reach D s \<Longrightarrow> completion D s t \<Longrightarrow> loop_reach D t"
  by (blast intro: loop_reach.loop_next loop_step.step_completion)

lemma race_s1: "reg_begin ana_dto loop_init = loop_init\<lparr>regs := [(ana_dto, ''ana@test.com'')]\<rparr>"
  by (simp add: reg_begin_def register_check_def findByEmail_def loop_init_def users_service_init_def ana_norm)

lemma race_s2:
  "reg_resume D ''salt1'' 0 0 (loop_init\<lparr>regs := [(ana_dto, ''ana@test.com'')]\<rparr>) =
     loop_init\<lparr>lstore := \<lparr>users = [registered_user (ad_hasher D) ''salt1'' 0 ana_dto 1], idCounter = 2\<rparr>\<rparr>"
proof -
  have "js_incr 1 = 2" by (simp add: js_incr_def)
  then show ?thesis
    by (simp add: reg_resume_def register_complete_store loop_init_def users_service_init_def
                  registered_user_def remove_nth_def ana_norm)
qed

lemma race_s3:
  "login_begin race_login (loop_init\<lparr>lstore := \<lparr>users = [registered_user H ''salt1'' 0 ana_dto 1], idCounter = 2\<rparr>\<rparr>) =
     loop_init\<lparr>lstore := \<lparr>users = [registered_user H ''salt1'' 0 ana_dto 1], idCounter = 2\<rparr>,
               logins := [(race_login, 0, bc_hash H ''secret1'' bcrypt_rounds ''salt1'')]\<rparr>"
  by (simp add: login_begin_def user_ref_by_email_def ana_login_def loop_init_def ana_norm)

lemma race_s4:
  "store_call (OpRemove 9 1) (loop_init\<lparr>lstore := \<lparr>users = [registered_user H ''salt1'' 0 ana_dto 1], idCounter = 2\<rparr>,
               logins := L\<rparr>) =
     loop_init\<lparr>lstore := \<lparr>users = [deactivate 9 (registered_user H ''salt1'' 0 ana_dto 1)], idCounter = 2\<rparr>,
               logins := L\<rparr>"
  by (simp add: store_call_def remove_def loop_init_def)

lemma race_s5:
  assumes "hasher_correct (ad_hasher D)"
  shows "login_compared D 10 0 (loop_init\<lparr>lstore := st, logins := [(race_login, 0, bc_hash (ad_hasher D) ''secret1'' bcrypt_rounds ''salt1'')]\<rparr>) =
     loop_init\<lparr>lstore := st, signs := [(signAsync (ad_jwt D) (ad_jwt_options D) 10 (login_payload (users st ! 0)), 0)]\<rparr>"
  using assms by (simp add: login_compared_def loop_init_def ana_login_def remove_nth_def)

lemma race_s6:
  "login_signed 0 (loop_init\<lparr>lstore := st, signs := [(tok, 0)]\<rparr>) =
     loop_init\<lparr>lstore := st, login_out := [Inr \<lparr>access_token = tok, login_user = sanitize (users st ! 0)\<rparr>]\<rparr>"
  by (simp add: login_signed_def loop_init_def remove_nth_def)

lemma inactive_race_eq:
  assumes "hasher_correct (ad_hasher D)"
  shows "inactive_race D =
     loop_init\<lparr>lstore := \<lparr>users = [deactivate 9 (registered_user (ad_hasher D) ''salt1'' 0 ana_dto 1)], idCounter = 2\<rparr>,
       login_out := [Inr \<lparr>access_token = signAsync (ad_jwt D) (ad_jwt_options D) 10
                                           (login_payload (deactivate 9 (registered_user (ad_hasher D) ''salt1'' 0 ana_dto 1))),
                          login_user = sanitize (deactivate 9 (registered_user (ad_hasher D) ''salt1'' 0 ana_dto 1))\<rparr>]\<rparr>"
  unfolding inactive_race_def race_s1 race_s2 race_s3 race_s4 race_s5 [OF assms] race_s6
  by simp

lemma race_prefix_reach:
  "loop_reach D (login_begin race_login (reg_resume D ''salt1'' 0 0 (reg_begin ana_dto loop_init)))"
proof -
  have r1: "loop_reach D (reg_begin ana_dto loop_init)"
    by (rule loop_reach_arrival [OF loop_reach.loop_start arrival.arr_register])
  have "0 < length (regs (reg_begin ana_dto loop_init))" by (simp add: race_s1)
  with r1 have "loop_reach D (reg_resume D ''salt1'' 0 0 (reg_begin ana_dto loop_init))"
    by (blast intro: loop_reach_completion completion.hash_done)
  then show ?thesis by (blast intro: loop_reach_arrival arrival.arr_login)
qed

lemma inactive_race_reach:
  assumes "hasher_correct (ad_hasher D)"
  shows "loop_reach D (inactive_race D)"
proof -
  let ?s3 = "login_begin race_login (reg_resume D ''salt1'' 0 0 (reg_begin ana_dto loop_init))"
  let ?s4 = "store_call (OpRemove 9 1) ?s3"
  let ?s5 = "login_compared D 10 0 ?s4"
  have "users_module_op (OpRemove 9 1)" by (simp add: users_module_op_def)
  with race_prefix_reach have r4: "loop_reach D ?s4" by (blast intro: loop_reach_arrival arrival.arr_store)
  have "0 < length (logins ?s4)"
    unfolding race_s1 race_s2 race_s3 race_s4 by simp
  with r4 have r5: "loop_reach D ?s5" by (blast intro: loop_reach_completion completion.compare_done)
  have "0 < length (signs ?s5)"
    unfolding race_s1 race_s2 race_s3 race_s4 race_s5 [OF assms] by simp
  with r5 show ?thesis unfolding inactive_race_def by (blast intro: loop_reach_completion completion.sign_done)
qed

text \<open>
  Claim C27: With logins suspended at await bcrypt.compare, a login that
  passed the isActive check completes after remove deactivated the account:
  it returns a token and a user view with isActive false, although login on
  the resulting store answers 'Usuario inactivo'.
\<close>

theorem login_outlives_deactivation:
  assumes "hasher_correct (ad_hasher D)"
  shows "loop_reach D (inactive_race D) \<and>
         (\<exists>r. login_out (inactive_race D) = [Inr r] \<and> isActive (login_user r) = Some False) \<and>
         login D now race_login (lstore (inactive_race D)) = Inl (UnauthorizedException msg_inactive)"
proof -
  have "login D now race_login (lstore (inactive_race D)) = Inl (UnauthorizedException msg_inactive)"
    by (rule login_inactive [of _ _ "deactivate 9 (registered_user (ad_hasher D) ''salt1'' 0 ana_dto 1)"])
       (simp_all add: inactive_race_eq [OF assms] findByEmail_def ana_login_def ana_norm)
  moreover have "\<exists>r. login_out (inactive_race D) = [Inr r] \<and> isActive (login_user r) = Some False"
    by (simp add: inactive_race_eq [OF assms] sanitize_eq)
  ultimately show ?thesis using inactive_race_reach [OF assms] by blast
qed

theorem login_outlives_deactivation_witness:
  "loop_reach (demo_deps demo_payload) (inactive_race (demo_deps demo_payload)) \<and>
   (\<exists>r. login_out (inactive_race (demo_deps demo_payload)) = [Inr r] \<and> isActive (login_user r) = Some False) \<and>
   login (demo_deps demo_payload) 20 race_login (lstore (inactive_race (demo_deps demo_payload)))
     = Inl (UnauthorizedException msg_inactive)"
proof -
  have h: "hasher_correct (ad_hasher (demo_deps demo_payload))"
    by (simp add: demo_deps_def demo_hasher_correct)
  show ?thesis by (rule login_outlives_deactivation [OF h])
qed


subsection \<open>Stored passwords are digests\<close>

lemma store_call_lstore: "lstore (store_call op s) = store_step (lstore s) op"
  by (simp add: store_call_def)

lemma stored_digests_register_complete:
  "stored_digests H st \<Longrightarrow> stored_digests H (snd (register_complete H salt now d mail st))"
  by (auto simp: stored_digests_def register_complete_store is_digest_def new_user_def)

lemma password_apply_update:
  "upd_password d = None \<Longrightarrow> password (apply_update now d u) = password u"
  by (simp add: apply_update_def Let_def split: option.splits)

lemma stored_digests_store_step:
  assumes "stored_digests H st" and "users_module_op op" and "\<not> carries_password op"
  shows "stored_digests H (store_step st op)"
proof (cases op)
  case (OpCreate now d)
  with assms(2) show ?thesis by (simp add: users_module_op_def)
next
  case (OpUpdate now i d)
  with assms(3) have n: "upd_password d = None" by (simp add: carries_password_def)
  have "\<forall>v \<in> set (update_first (\<lambda>u. user_id u = i) (apply_update now d) (users st)). is_digest H (password v)"
  proof
    fix v assume "v \<in> set (update_first (\<lambda>u. user_id u = i) (apply_update now d) (users st))"
    then have "v \<in> set (users st) \<or> (\<exists>x \<in> set (users st). v = apply_update now d x)"
      by (auto dest: set_update_first)
    with assms(1) n show "is_digest H (password v)" by (auto simp: stored_digests_def password_apply_update)
  qed
  with OpUpdate assms(1) show ?thesis
    by (simp add: update_def stored_digests_def split: option.splits)
next
  case (OpRemove now i)
  have "\<forall>v \<in> set (update_first (\<lambda>u. user_id u = i) (deactivate now) (users st)). is_digest H (password v)"
  proof
    fix v assume "v \<in> set (update_first (\<lambda>u. user_id u = i) (deactivate now) (users st))"
    then have "v \<in> set (users st) \<or> (\<exists>x \<in> set (users st). v = deactivate now x)"
      by (auto dest: set_update_first)
    with assms(1) show "is_digest H (password v)" by (auto simp: stored_digests_def deactivate_def)
  qed
  with OpRemove assms(1) show ?thesis
    by (simp add: remove_def stored_digests_def split: option.splits)
qed

text \<open>
  Claim C28: Every turn of the event loop (registration steps, login steps,
  update and remove) keeps every stored password an output of the hasher,
  except a store call that carries a password, which is the one way a non-
  digest can enter the store.
\<close>

theorem turn_keeps_digests:
  assumes "loop_step D s t" and "stored_digests (ad_hasher D) (lstore s)"
  shows "stored_digests (ad_hasher D) (lstore t) \<or> (\<exists>op. carries_password op \<and> t = store_call op s)"
  using assms(1)
proof cases
  case step_arrival
  then show ?thesis
  proof cases
    case (arr_register d)
    with assms(2) show ?thesis by (simp add: reg_begin_def split: sum.split)
  next
    case (arr_login d)
    with assms(2) show ?thesis by (simp add: login_begin_def Let_def split: option.split)
  next
    case (arr_store op)
    show ?thesis
    proof (cases "carries_password op")
      case True
      with arr_store show ?thesis by blast
    next
      case False
      with arr_store assms(2) show ?thesis by (simp add: store_call_lstore stored_digests_store_step)
    qed
  qed
next
  case step_completion
  then show ?thesis
  proof cases
    case (hash_done i salt now)
    with assms(2) show ?thesis
      by (simp add: reg_resume_def stored_digests_register_complete split: prod.split)
  next
    case (compare_done i now)
    with assms(2) show ?thesis by (simp add: login_compared_def split: prod.split)
  next
    case (sign_done i)
    with assms(2) show ?thesis by (simp add: login_signed_def split: prod.split)
  qed
qed
theorem turn_keeps_digests_witness:
  "loop_step (demo_deps demo_payload) (reg_begin ana_dto loop_init)
      (reg_resume (demo_deps demo_payload) ''salt1'' 0 0 (reg_begin ana_dto loop_init)) \<and>
   is_digest demo_hasher (password (hd (users (lstore (reg_resume (demo_deps demo_payload) ''salt1'' 0 0 (reg_begin ana_dto loop_init))))))"
proof -
  let ?s = "reg_begin ana_dto loop_init" and ?D = "demo_deps demo_payload"
  let ?t = "reg_resume ?D ''salt1'' 0 0 ?s"
  have st: "loop_step ?D ?s ?t"
    by (rule loop_step.step_completion, rule completion.hash_done) (simp add: race_s1)
  have d0: "stored_digests (ad_hasher ?D) (lstore ?s)"
    unfolding race_s1 by (simp add: stored_digests_def loop_init_def users_service_init_def)
  have t: "?t = loop_init\<lparr>lstore := \<lparr>users = [registered_user demo_hasher ''salt1'' 0 ana_dto 1], idCounter = 2\<rparr>\<rparr>"
    unfolding race_s1 race_s2 by (simp add: demo_deps_def)
  have r1: "regs ?t = []" unfolding t by (simp add: loop_init_def)
  have r2: "regs (store_call op ?s) \<noteq> []" for op unfolding race_s1 by (simp add: store_call_def)
  have "\<not> (\<exists>op. carries_password op \<and> ?t = store_call op ?s)"
  proof
    assume "\<exists>op. carries_password op \<and> ?t = store_call op ?s"
    then obtain op where "?t = store_call op ?s" by blast
    then have "regs ?t = regs (store_call op ?s)" by (rule arg_cong)
    with r1 r2 [of op] show False by simp
  qed
  with turn_keeps_digests [OF st d0] have "stored_digests (ad_hasher ?D) (lstore ?t)" by blast
  then have "stored_digests demo_hasher (lstore ?t)" by (simp add: demo_deps_def)
  then have "is_digest demo_hasher (password (hd (users (lstore ?t))))"
    unfolding t by (simp add: stored_digests_def)
  with st show ?thesis by simp
qed

end
