(* ===== verification/Spec2Isabelle.thy ===== *)
theory Spec2Isabelle
  imports EventLoop
begin

text \<open>
  \<^bold>\<open>Verification development of Login_Con_Nest\<close>, a NestJS service that
  registers users, logs them in with a signed JWT and guards two routes
  with that token. The program's parts, leaf first, and where they are:

  \<^item> \<open>Prelude\<close>: time and id types, the NestJS exceptions as the datatype
    \<open>http_error\<close>, decimal rendering of ids (the NotFound messages), and
    the list operations behind
    \<open>Array.find\<close> and the in-place mutation of the found element
    (\<open>update_first\<close>), with their lemmas.
  \<^item> \<open>JsString\<close>: \<open>toLowerCase\<close>, \<open>trim\<close> and \<open>normalize_email\<close>
    (\<open>email.toLowerCase().trim()\<close>), on the ASCII range of UTF-8 byte
    strings; \<open>js_length\<close>, the UTF-16 code-unit count JavaScript's
    \<open>length\<close> and class-validator's \<open>MinLength\<close>/\<open>MaxLength\<close> use;
    idempotence and the identification of case and white-space variants.
  \<^item> \<open>Users\<close>: \<open>src/users/entities/user.entity.ts\<close>, the DTOs and
    \<open>src/users/users.service.ts\<close>. The service's fields \<open>users\<close> and
    \<open>idCounter\<close> are the record \<open>users_state\<close>; \<open>create\<close>, \<open>findAll\<close>,
    \<open>findOne\<close>, \<open>findByEmail\<close>, \<open>findByEmailWithPassword\<close>, \<open>update\<close>,
    \<open>remove\<close>, \<open>sanitize\<close> are functions of it (time passed in, thrown
    exceptions as \<open>Inl\<close>); \<open>store_op\<close>/\<open>store_run\<close> run sequences of the
    mutating methods. Lemmas: the store invariant \<open>users_inv\<close> and its
    preservation, lookup after create/update/remove, the full effect of
    \<open>update\<close> (every field of the stored user) and of the soft delete
    \<open>remove\<close>, the NotFound branches, two losses of uniqueness (id counter
    saturation; an \<open>update\<close> of any user to another user's address), and the
    refinement of the array store into a map from ids (\<open>users_abs\<close>,
    \<open>store_step_abs\<close>) with an unbounded counter, below \<open>2^53\<close>.
  \<^item> \<open>Hasher\<close>: \<open>bcrypt.hash\<close>/\<open>bcrypt.compare\<close> as an interface record with
    the contract \<open>hasher_correct\<close> (a digest verifies the passwords that
    agree on their first 72 bytes); \<open>demo_hasher\<close> satisfies it.
    \<open>Auth\<close> proves that after a registration login accepts exactly the
    passwords agreeing with the registered one on its first 72 bytes; the
    \<open>MaxLength(50)\<close> of \<open>CreateUserDto\<close> counts UTF-16 units, so a password
    of 24 three-byte characters and one letter passes it and is matched by
    another one.
  \<^item> \<open>Jwt\<close>: the login payload, \<open>signAsync\<close> (iat, exp = iat + expiresIn),
    \<open>jwt_verify\<close> (decode, signature, expiry in that order), the options of
    the \<open>JwtStrategy\<close> constructor and its \<open>validate\<close>
    (\<open>src/auth/strategies/jwt.strategy.ts\<close>), Bearer extraction and the guard
    \<open>jwt_auth_guard\<close>. HMAC and the base64url serialisation are the
    interface \<open>jwt_lib\<close>; the signature type is a type variable. Lemmas: the
    strategy accepts only fresh tokens signed under \<open>JWT_SECRET\<close>, rejects
    expired ones and those signed with another secret, and the guard admits
    a request only when the header's first word is \<open>bearer\<close> in some case
    and its second word is such a token; a
    token read back by the strategy yields exactly its payload until the
    second \<open>exp = iat + expiresIn\<close> and \<open>TokenExpired\<close> from then on.
  \<^item> \<open>Auth\<close>: \<open>src/auth/auth.service.ts\<close>. \<open>register\<close> is the composition of
    \<open>register_check\<close> (up to \<open>await bcrypt.hash\<close>) and \<open>register_complete\<close>;
    \<open>login\<close> and \<open>getProfile\<close> follow the code branch by branch. Lemmas: every
    branch of register and login, what a registration stores and returns,
    the non-enumeration of login failures, login after deactivation, and
    that \<open>update\<close> stores a new password unhashed, after which neither the
    old nor the new password logs in (\<open>stored_digests\<close> states the data
    model's promise that only hashes are stored).
  \<^item> \<open>Controller\<close>: \<open>src/auth/auth.controller.ts\<close> as \<open>handle\<close> over a
    \<open>request\<close> datatype, \<open>guarded\<close> for \<open>@UseGuards(JwtAuthGuard)\<close>, and two
    request models: \<open>seq_reach\<close> (each registration atomic) and the
    inductive \<open>app_step\<close>/\<open>app_reach\<close> (registrations suspended at their
    \<open>await\<close>, hashes resolving in any order). Lemmas: both guarded routes
    answer 401 without a Bearer header, whatever the store, and guarded
    answers ignore the store; the sequential model keeps e-mails unique; the
    interleaved one reaches duplicate e-mails, after which the second
    account's owner cannot log in (\<open>race_trace\<close> builds the interleaving),
    while ids stay distinct in every interleaving; every route fails only
    with the status of the spec's error taxonomy (409 for register, 401
    otherwise), so no route answers 404.
  \<^item> \<open>EventLoop\<close>: every \<open>await\<close> of \<open>src/auth/auth.service.ts\<close> as a
    suspension point of the Node.js event loop. The state \<open>loop_state\<close>
    holds the store, the registrations waiting for \<open>bcrypt.hash\<close>, the
    logins waiting for \<open>bcrypt.compare\<close> and for \<open>signAsync\<close>, and the
    login responses. \<open>reg_begin\<close>/\<open>reg_resume\<close> and \<open>login_begin\<close>/
    \<open>login_compared\<close>/\<open>login_signed\<close> are the code between two awaits;
    \<open>store_call\<close> is \<open>update\<close> or \<open>remove\<close> of \<open>UsersService\<close> run in
    between; \<open>arrival\<close>, \<open>completion\<close>, \<open>loop_step\<close> and \<open>loop_reach\<close> are
    the turns. The user object \<open>login\<close> keeps across its awaits is its
    position in the array (\<open>find_idx\<close> of \<open>Prelude\<close>), valid because the
    array never shrinks. Lemmas: a login whose comparison resolves after
    \<open>remove\<close> still returns a token, with a user view showing
    \<open>isActive = false\<close>; and every turn
    keeps the stored passwords hashes, except an \<open>update\<close> that carries a
    password (\<open>carries_password\<close>).
  \<^item> This theory: the run from registration through login to an
    authenticated request.

  \<^bold>\<open>Bounds and assumptions.\<close> Ids and times are \<open>nat\<close>; the id counter is a
  JavaScript number, so \<open>js_incr\<close> writes out that \<open>idCounter++\<close> is exact
  below \<open>2^53\<close> and stays at \<open>2^53\<close> there; the invariant theorem requires as
  many free ids as operations. The end-to-end theorem assumes what the code
  takes from outside the repository: a correct hasher, module options that
  sign with \<open>JWT_SECRET\<close>, a serialisation that decodes the issued token,
  and a whitespace-free token. No theorem assumes the DTO validation,
  which no code of the repository performs. No definition needs fuel: every function is
  structural or a \<open>fun\<close> with an automatic termination proof.

  \<^bold>\<open>Not modelled.\<close> The framework (module wiring, DI, ValidationPipe, HTTP
  serialisation), files imported but absent from the repository (they are
  modelled from their use where needed: \<open>UpdateUserDto\<close>, \<open>LoginDto\<close>,
  \<open>JwtAuthGuard\<close>, the JWT module options), Unicode case mapping and white
  space, the bcrypt and HMAC algorithms, base64url, and the ISO rendering of
  timestamps. Guarded reads are not turns of the event-loop model because
  they change no state and do not await; \<open>UsersController\<close> is absent, so
  the store calls between turns are \<open>update\<close> and \<open>remove\<close> with any
  arguments.
\<close>

subsection \<open>Example data for the end-to-end run\<close>

definition ana_payload :: jwt_payload where
  "ana_payload = sign_payload (ad_jwt_options (demo_deps demo_payload)) 0
     (login_payload (registered_user demo_hasher ''salt1'' 0 ana_dto 1))"

abbreviation ana_deps :: "(string \<times> jwt_payload) auth_deps" where
  "ana_deps \<equiv> demo_deps ana_payload"

subsection \<open>From registration to an authenticated request\<close>

lemma guarded_accepts:
  assumes "fromAuthHeaderAsBearerToken hdr = Some tok"
    and "jwt_verify L JWT_SECRET False now tok = Inr p"
  shows "guarded L now hdr h = Inr (h (validate p))"
  using assms by (simp add: guarded_def jwt_auth_guard_def jwt_strategy_options_def)

text \<open>
  Claim C1: After a registration with a fresh e-mail, login with any
  normalisation-equal address and the same password succeeds, and presenting
  its access token as a Bearer header to GET /auth/protected before expiry
  answers with the new user's id and name (when the module signs with
  JWT_SECRET).
\<close>

theorem register_login_protected:
  assumes H: "hasher_correct (ad_hasher D)"
    and sec: "jm_secret (ad_jwt_options D) = JWT_SECRET"
    and fresh: "findByEmail (dto_email d) s = None"
    and em: "normalize_email e = normalize_email (dto_email d)"
    and codec: "jl_decode (ad_jwt D) (signAsync (ad_jwt D) (ad_jwt_options D) now1
                  (login_payload (registered_user (ad_hasher D) salt now0 d (idCounter s))))
                = Some (sign_payload (ad_jwt_options D) now1 (login_payload (registered_user (ad_hasher D) salt now0 d (idCounter s))),
                        jl_mac (ad_jwt D) JWT_SECRET (sign_payload (ad_jwt_options D) now1 (login_payload (registered_user (ad_hasher D) salt now0 d (idCounter s)))))"
    and tok: "signAsync (ad_jwt D) (ad_jwt_options D) now1 (login_payload (registered_user (ad_hasher D) salt now0 d (idCounter s))) \<noteq> []"
      "\<forall>c \<in> set (signAsync (ad_jwt D) (ad_jwt_options D) now1 (login_payload (registered_user (ad_hasher D) salt now0 d (idCounter s)))). \<not> js_is_space c"
    and time: "seconds_of now2 < seconds_of now1 + jm_expires_in (ad_jwt_options D)"
  shows "\<exists>r. login D now1 \<lparr>login_email = e, login_password = dto_password d\<rparr> (snd (register D salt now0 d s)) = Inr r \<and>
             handle D salt' now2 (GetProtected (Some (''Bearer '' @ access_token r))) (snd (register D salt now0 d s))
             = (Inr (ProtectedResponse (''Hola '' @ dto_nombre d @ ''. Esta es una ruta protegida.'') now2 (idCounter s)),
                snd (register D salt now0 d s))"
proof -
  let ?u = "registered_user (ad_hasher D) salt now0 d (idCounter s)"
  let ?s1 = "snd (register D salt now0 d s)"
  let ?tok = "signAsync (ad_jwt D) (ad_jwt_options D) now1 (login_payload ?u)"
  let ?p = "sign_payload (ad_jwt_options D) now1 (login_payload ?u)"
  have "findByEmail e ?s1 = findByEmail (dto_email d) ?s1" by (simp add: findByEmail_def em)
  also from fresh have "\<dots> = Some ?u" by (rule findByEmail_register_fresh)
  finally have f: "findByEmail (login_email \<lparr>login_email = e, login_password = dto_password d\<rparr>) ?s1 = Some ?u" by simp
  from H have "bc_compare (ad_hasher D) (dto_password d) (password ?u)" by simp
  with f have l: "login D now1 \<lparr>login_email = e, login_password = dto_password d\<rparr> ?s1
      = Inr \<lparr>access_token = ?tok, login_user = sanitize ?u\<rparr>"
    by (intro login_ok) simp_all
  from tok have x: "fromAuthHeaderAsBearerToken (Some (''Bearer '' @ ?tok)) = Some ?tok" by (rule bearer_extract)
  have v: "jwt_verify (ad_jwt D) JWT_SECRET False now2 ?tok = Inr ?p"
    using jwt_verify_signed [of "ad_jwt D" "ad_jwt_options D" now1 "login_payload ?u" now2] codec time sec
    by simp
  have "handle D salt' now2 (GetProtected (Some (''Bearer '' @ ?tok))) ?s1
      = (Inr (protectedRoute_handler now2 (validate ?p)), ?s1)"
    using guarded_accepts [OF x v] by (simp add: handle_def)
  also have "protectedRoute_handler now2 (validate ?p)
      = ProtectedResponse (''Hola '' @ dto_nombre d @ ''. Esta es una ruta protegida.'') now2 (idCounter s)"
    by (simp add: protectedRoute_handler_def validate_def sign_payload_def login_payload_def registered_user_def new_user_def)
  finally show ?thesis using l by simp
qed

lemma ana_deps_simps [simp]:
  "ad_hasher (demo_deps p) = demo_hasher" "ad_jwt (demo_deps p) = demo_jwt_lib p"
  "ad_jwt_options (demo_deps p) = \<lparr>jm_secret = JWT_SECRET, jm_expires_in = 3600\<rparr>"
  by (simp_all add: demo_deps_def)

lemma ana_token: "signAsync (demo_jwt_lib p) opts now c = ''eyJ.demo.sig''"
  by (simp add: signAsync_def demo_jwt_lib_def)

theorem register_login_protected_witness:
  "\<exists>r. login ana_deps 0 \<lparr>login_email = ''ANA@TEST.COM'', login_password = dto_password ana_dto\<rparr>
          (snd (register ana_deps ''salt1'' 0 ana_dto users_service_init)) = Inr r \<and>
       handle ana_deps ''salt2'' 1000 (GetProtected (Some (''Bearer '' @ access_token r)))
          (snd (register ana_deps ''salt1'' 0 ana_dto users_service_init))
       = (Inr (ProtectedResponse (''Hola '' @ dto_nombre ana_dto @ ''. Esta es una ruta protegida.'') 1000
               (idCounter users_service_init)),
          snd (register ana_deps ''salt1'' 0 ana_dto users_service_init))"
proof -
  have i: "idCounter users_service_init = 1" by (simp add: users_service_init_def)
  have h1: "hasher_correct (ad_hasher ana_deps)" by (simp add: demo_hasher_correct)
  have h2: "jm_secret (ad_jwt_options ana_deps) = JWT_SECRET" by simp
  have h3: "findByEmail (dto_email ana_dto) users_service_init = None"
    by (simp add: findByEmail_def users_service_init_def)
  have h4: "normalize_email ''ANA@TEST.COM'' = normalize_email (dto_email ana_dto)"
    by (simp add: ana_norm)
  have h5: "jl_decode (ad_jwt ana_deps) (signAsync (ad_jwt ana_deps) (ad_jwt_options ana_deps) 0
                  (login_payload (registered_user (ad_hasher ana_deps) ''salt1'' 0 ana_dto (idCounter users_service_init))))
                = Some (sign_payload (ad_jwt_options ana_deps) 0 (login_payload (registered_user (ad_hasher ana_deps) ''salt1'' 0 ana_dto (idCounter users_service_init))),
                        jl_mac (ad_jwt ana_deps) JWT_SECRET (sign_payload (ad_jwt_options ana_deps) 0 (login_payload (registered_user (ad_hasher ana_deps) ''salt1'' 0 ana_dto (idCounter users_service_init)))))"
    unfolding ana_deps_simps ana_token by (simp add: i demo_jwt_lib_def ana_payload_def)
  have h6: "signAsync (ad_jwt ana_deps) (ad_jwt_options ana_deps) 0 (login_payload (registered_user (ad_hasher ana_deps) ''salt1'' 0 ana_dto (idCounter users_service_init))) \<noteq> []"
    "\<forall>c \<in> set (signAsync (ad_jwt ana_deps) (ad_jwt_options ana_deps) 0 (login_payload (registered_user (ad_hasher ana_deps) ''salt1'' 0 ana_dto (idCounter users_service_init)))). \<not> js_is_space c"
    by (simp_all add: ana_token js_is_space_def)
  have h7: "seconds_of 1000 < seconds_of 0 + jm_expires_in (ad_jwt_options ana_deps)"
    by (simp add: seconds_of_def)
  show ?thesis using register_login_protected [OF h1 h2 h3 h4 h5 h6 h7, of "''salt2''"] by simp
qed

end
